theory Spec2Isabelle
  imports Main "HOL-Library.Word"
begin

unbundle bit_operations_syntax

section \<open>Data model of capi/examples/server.c\<close>

text \<open>
  Pointers are addresses (\<open>nat\<close>); a nullable pointer is an \<open>option\<close>, \<open>None\<close> being
  \<open>NULL\<close>. The connection records live in an explicit store, so that \<open>free\<close> and a
  dereference of \<open>NULL\<close> or of a released record are visible in the model.
\<close>

type_synonym conn_ptr = nat
type_synonym hyper_waker = nat
type_synonym hyper_io = nat
type_synonym hyper_task = nat
type_synonym size_t = "64 word"
type_synonym ssize_t = "64 word"

record conn_data =
  fd :: int
  read_waker :: "hyper_waker option"
  write_waker :: "hyper_waker option"

type_synonym heap = "conn_ptr \<Rightarrow> conn_data option"

text \<open>Which slot of a record a resumption handle was obtained for.\<close>

datatype slot = ReadSlot | WriteSlot

text \<open>Which registration of the readiness notifier an event belongs to
  (\<open>events[n].data.ptr\<close> compared with \<open>&listen_fd\<close> and \<open>&signal_fd\<close>).\<close>

datatype epoll_key = KeyListen | KeySignal | KeyConn "conn_ptr option"

text \<open>The calls the program makes to the operating system and to the HTTP engine,
  in the order it makes them.\<close>

datatype action =
    Printf string
  | Perror string
  | Fprintf string
  | SysRead int
  | SysWrite int
  | ContextWaker slot hyper_waker
  | WakerFree slot hyper_waker
  | WakerWake slot hyper_waker
  | Malloc "conn_ptr option"
  | Free "conn_ptr option"
  | EpollCtlAdd int epoll_key
  | EpollCtlDel int
  | Close int
  | IoNew hyper_io
  | IoSetUserdata hyper_io "conn_ptr option"
  | IoSetRead hyper_io
  | IoSetWrite hyper_io
  | Getaddrinfo
  | Freeaddrinfo
  | Socket
  | Setsockopt int
  | Bind int
  | Fcntl int string
  | Listen int
  | Signalfd
  | Sigprocmask
  | EpollCreate
  | ExecutorNew
  | OptionsNew
  | ExecutorPoll
  | Polled "hyper_task option"
  | ErrorFree hyper_task
  | TaskFree hyper_task
  | EpollWait
  | Accept int
  | Getnameinfo
  | ServiceNew
  | ServeConnection hyper_io hyper_task
  | TaskSetUserdata hyper_task "conn_ptr option"
  | ExecutorPush hyper_task
  | OptionsFree
  | ExecutorFree

text \<open>How a part of the program ends when it does not return to its caller:
  \<open>Exit n\<close> is \<open>return n\<close> from \<open>main\<close>; \<open>GotoExit\<close> is the jump to the label
  \<open>EXIT\<close>; \<open>InvalidDeref\<close> is a dereference of \<open>NULL\<close> or of a record that is not
  allocated, from where the C program has no defined behaviour; \<open>Starved\<close> means that
  the program made a call for which the environment of the run holds no reply.\<close>

datatype halt = Exit int | GotoExit | InvalidDeref | Starved

text \<open>What a non-blocking \<open>read\<close>, \<open>write\<close> or \<open>accept\<close> left behind: its return value
  and the value of \<open>errno\<close> after the call.\<close>

record sys_result =
  ret :: ssize_t
  errno :: int

definition EAGAIN :: int where
  "EAGAIN = 11"

definition EPOLLIN :: "32 word" where
  "EPOLLIN = 0x001"

definition EPOLLOUT :: "32 word" where
  "EPOLLOUT = 0x004"

text \<open>Modelled from the spec: the two sentinels \<open>HYPER_IO_PENDING\<close> and \<open>HYPER_IO_ERROR\<close>
  are macros of \<open>hyper.h\<close>, which is not among the sources; the spec only says that they
  are special return values of the callbacks. They are taken as parameters.\<close>

record hyper_h =
  HYPER_IO_PENDING :: size_t
  HYPER_IO_ERROR :: size_t

text \<open>Modelled from the spec: \<open>hyper_context_waker\<close> is declared in \<open>hyper.h\<close>; a context
  is an opaque value from which a resumption handle can be obtained.\<close>

datatype hyper_context = Context hyper_waker

fun hyper_context_waker :: "hyper_context \<Rightarrow> hyper_waker" where
  "hyper_context_waker (Context w) = w"

section \<open>The I/O adapter\<close>

definition deref :: "heap \<Rightarrow> conn_ptr option \<Rightarrow> (conn_ptr \<times> conn_data) option" where
  "deref h userdata =
     (case userdata of
        None \<Rightarrow> None
      | Some p \<Rightarrow> (case h p of None \<Rightarrow> None | Some conn \<Rightarrow> Some (p, conn)))"

text \<open>\<open>read_cb\<close>: the result of \<open>read(conn->fd, buf, buf_len)\<close> is the argument \<open>sys\<close>.\<close>

definition read_cb ::
  "hyper_h \<Rightarrow> heap \<Rightarrow> conn_ptr option \<Rightarrow> hyper_context \<Rightarrow> sys_result
     \<Rightarrow> action list \<times> (halt + (size_t \<times> heap))" where
  "read_cb H h userdata ctx sys =
     (case deref h userdata of
        None \<Rightarrow> ([], Inl InvalidDeref)
      | Some (p, conn) \<Rightarrow>
          if 0 \<le> sint (ret sys) then ([SysRead (fd conn)], Inr (ret sys, h))
          else if errno sys \<noteq> EAGAIN then ([SysRead (fd conn)], Inr (HYPER_IO_ERROR H, h))
          else
            let w = hyper_context_waker ctx in
            ([SysRead (fd conn)]
             @ (case read_waker conn of None \<Rightarrow> [] | Some old \<Rightarrow> [WakerFree ReadSlot old])
             @ [ContextWaker ReadSlot w],
             Inr (HYPER_IO_PENDING H, h(p \<mapsto> conn\<lparr>read_waker := Some w\<rparr>))))"

definition write_cb ::
  "hyper_h \<Rightarrow> heap \<Rightarrow> conn_ptr option \<Rightarrow> hyper_context \<Rightarrow> sys_result
     \<Rightarrow> action list \<times> (halt + (size_t \<times> heap))" where
  "write_cb H h userdata ctx sys =
     (case deref h userdata of
        None \<Rightarrow> ([], Inl InvalidDeref)
      | Some (p, conn) \<Rightarrow>
          if 0 \<le> sint (ret sys) then ([SysWrite (fd conn)], Inr (ret sys, h))
          else if errno sys \<noteq> EAGAIN then ([SysWrite (fd conn)], Inr (HYPER_IO_ERROR H, h))
          else
            let w = hyper_context_waker ctx in
            ([SysWrite (fd conn)]
             @ (case write_waker conn of None \<Rightarrow> [] | Some old \<Rightarrow> [WakerFree WriteSlot old])
             @ [ContextWaker WriteSlot w],
             Inr (HYPER_IO_PENDING H, h(p \<mapsto> conn\<lparr>write_waker := Some w\<rparr>))))"

section \<open>Connection records: construction, destruction, wake-up\<close>

text \<open>\<open>create_conn_data\<close>: \<open>m\<close> is what \<open>malloc\<close> returned and \<open>rc\<close> what
  \<open>epoll_ctl(epoll, EPOLL_CTL_ADD, fd, ...)\<close> returned. The fields are written only after
  the registration succeeded; with \<open>m = NULL\<close> that write dereferences \<open>NULL\<close>.\<close>

definition create_conn_data ::
  "heap \<Rightarrow> conn_ptr option \<Rightarrow> int \<Rightarrow> int
     \<Rightarrow> action list \<times> (halt + (conn_ptr option \<times> heap))" where
  "create_conn_data h m rc nfd =
     (if rc < 0 then
        ([Malloc m, EpollCtlAdd nfd (KeyConn m), Perror ''epoll_ctl (transport)'', Free m],
         Inr (None, (case m of None \<Rightarrow> h | Some p \<Rightarrow> h(p := None))))
      else
        (case m of
           None \<Rightarrow> ([Malloc m, EpollCtlAdd nfd (KeyConn m)], Inl InvalidDeref)
         | Some p \<Rightarrow>
             ([Malloc m, EpollCtlAdd nfd (KeyConn m)],
              Inr (Some p, h(p \<mapsto> \<lparr>fd = nfd, read_waker = None, write_waker = None\<rparr>)))))"

text \<open>\<open>create_io\<close>: \<open>io\<close> is what \<open>hyper_io_new\<close> returned.\<close>

definition create_io :: "hyper_io \<Rightarrow> conn_ptr option \<Rightarrow> action list" where
  "create_io io conn = [IoNew io, IoSetUserdata io conn, IoSetRead io, IoSetWrite io]"

text \<open>\<open>free_conn_data\<close>: \<open>rc\<close> is what \<open>epoll_ctl(epoll, EPOLL_CTL_DEL, conn->fd, NULL)\<close>
  returned.\<close>

definition free_conn_data ::
  "heap \<Rightarrow> conn_ptr option \<Rightarrow> int \<Rightarrow> action list \<times> (halt + heap)" where
  "free_conn_data h conn rc =
     (case deref h conn of
        None \<Rightarrow> ([], Inl InvalidDeref)
      | Some (p, c) \<Rightarrow>
          ([EpollCtlDel (fd c)]
           @ (if rc < 0 then [Perror ''epoll_ctl (transport)''] else [])
           @ (case read_waker c of None \<Rightarrow> [] | Some w \<Rightarrow> [WakerFree ReadSlot w])
           @ (case write_waker c of None \<Rightarrow> [] | Some w \<Rightarrow> [WakerFree WriteSlot w])
           @ [Close (fd c), Free (Some p)],
           Inr (h(p := None))))"

text \<open>The last branch of the event loop of \<open>main\<close> (an event of a transport socket):
  \<open>ev\<close> is \<open>events[n].events\<close> and \<open>conn\<close> is \<open>events[n].data.ptr\<close>. Each test is
  \<open>(events & FLAG) && conn->waker\<close>: the record is read only when the flag is set, so
  with neither flag set \<open>conn\<close> is not dereferenced at all.\<close>

definition poke_wakers ::
  "heap \<Rightarrow> conn_ptr option \<Rightarrow> 32 word \<Rightarrow> action list \<times> (halt + heap)" where
  "poke_wakers h conn ev =
     (if ev AND EPOLLIN = 0 \<and> ev AND EPOLLOUT = 0 then ([], Inr h)
      else
        (case deref h conn of
           None \<Rightarrow> ([], Inl InvalidDeref)
         | Some (p, c) \<Rightarrow>
             let (t1, c1) =
                   (if ev AND EPOLLIN \<noteq> 0 \<and> read_waker c \<noteq> None
                    then ([WakerWake ReadSlot (the (read_waker c))], c\<lparr>read_waker := None\<rparr>)
                    else ([], c));
                 (t2, c2) =
                   (if ev AND EPOLLOUT \<noteq> 0 \<and> write_waker c1 \<noteq> None
                    then ([WakerWake WriteSlot (the (write_waker c1))], c1\<lparr>write_waker := None\<rparr>)
                    else ([], c1))
             in (t1 @ t2, Inr (h(p \<mapsto> c2)))))"

section \<open>Sequencing\<close>

text \<open>Run \<open>m\<close>; when it returns, run \<open>f\<close> on what it returned. The calls made are
  those of \<open>m\<close> followed by those of \<open>f\<close>.\<close>

definition then_do ::
  "action list \<times> (halt + 'a) \<Rightarrow> ('a \<Rightarrow> action list \<times> (halt + 'b))
     \<Rightarrow> action list \<times> (halt + 'b)" where
  "then_do m f =
     (case m of
        (t, Inl e) \<Rightarrow> (t, Inl e)
      | (t, Inr a) \<Rightarrow> (case f a of (t', r) \<Rightarrow> (t @ t', r)))"

section \<open>Setup: the listening socket and the signal descriptor\<close>

text \<open>What the operating system answers during setup. \<open>gai_result\<close> is the list
  \<open>getaddrinfo\<close> produced, each address with the answers of \<open>socket\<close>, \<open>setsockopt\<close>
  and \<open>bind\<close> for it.\<close>

record addr_env =
  socket_ret :: int
  setsockopt_ret :: int
  bind_ret :: int

record setup_env =
  gai_rc :: int
  gai_result :: "addr_env list"
  fcntl_nonblock_ret :: int
  fcntl_cloexec_ret :: int
  listen_ret :: int
  signalfd_ret :: int
  sigprocmask_ret :: int
  epoll_create_ret :: int
  epoll_add_listen_ret :: int
  epoll_add_signal_ret :: int

text \<open>The \<open>for\<close> loop of \<open>listen_on\<close>; \<open>sock\<close> is the variable of that name.\<close>

fun try_addrs :: "int \<Rightarrow> addr_env list \<Rightarrow> action list \<times> int" where
  "try_addrs sock [] = ([], sock)"
| "try_addrs sock (a # resp) =
     (if socket_ret a < 0 then
        (case try_addrs (socket_ret a) resp of
           (t, s) \<Rightarrow> ([Socket, Perror ''socket''] @ t, s))
      else if bind_ret a = 0 then
        ([Socket, Setsockopt (socket_ret a)]
         @ (if setsockopt_ret a < 0 then [Perror ''setsockopt''] else [])
         @ [Bind (socket_ret a)],
         socket_ret a)
      else
        (case try_addrs (- 1) resp of
           (t, s) \<Rightarrow>
             ([Socket, Setsockopt (socket_ret a)]
              @ (if setsockopt_ret a < 0 then [Perror ''setsockopt''] else [])
              @ [Bind (socket_ret a), Close (socket_ret a)] @ t,
              s)))"

definition listen_on :: "setup_env \<Rightarrow> action list \<times> int" where
  "listen_on E =
     (if gai_rc E \<noteq> 0 then ([Getaddrinfo, Fprintf ''getaddrinfo: %s''], - 1)
      else
        (case try_addrs (- 1) (gai_result E) of
           (t, sock) \<Rightarrow>
             if sock < 0 then ([Getaddrinfo] @ t @ [Freeaddrinfo], - 1)
             else if fcntl_nonblock_ret E \<noteq> 0 then
               ([Getaddrinfo] @ t
                @ [Freeaddrinfo, Fcntl sock ''O_NONBLOCK'',
                   Perror ''fcntl(O_NONBLOCK) (listening)''],
                - 1)
             else if fcntl_cloexec_ret E \<noteq> 0 then
               ([Getaddrinfo] @ t
                @ [Freeaddrinfo, Fcntl sock ''O_NONBLOCK'', Fcntl sock ''FD_CLOEXEC'',
                   Perror ''fcntl(FD_CLOEXEC) (listening)''],
                1)
             else if listen_ret E < 0 then
               ([Getaddrinfo] @ t
                @ [Freeaddrinfo, Fcntl sock ''O_NONBLOCK'', Fcntl sock ''FD_CLOEXEC'',
                   Listen sock, Perror ''listen''],
                - 1)
             else
               ([Getaddrinfo] @ t
                @ [Freeaddrinfo, Fcntl sock ''O_NONBLOCK'', Fcntl sock ''FD_CLOEXEC'',
                   Listen sock],
                sock)))"

definition register_signal_handler :: "setup_env \<Rightarrow> action list \<times> int" where
  "register_signal_handler E =
     (if signalfd_ret E < 0 then ([Signalfd, Perror ''signalfd''], 1)
      else if sigprocmask_ret E < 0 then ([Signalfd, Sigprocmask, Perror ''sigprocmask''], 1)
      else ([Signalfd, Sigprocmask], signalfd_ret E))"

section \<open>The environment of the event loop\<close>

text \<open>Modelled from the spec: the terminal types of a task are an enumeration of
  \<open>hyper.h\<close>; the program tests for \<open>HYPER_TASK_ERROR\<close> and \<open>HYPER_TASK_EMPTY\<close> only, the
  other values are one constructor here.\<close>

datatype hyper_task_return_type = HYPER_TASK_EMPTY | HYPER_TASK_ERROR | HYPER_TASK_OTHER

record polled_task =
  task :: hyper_task
  task_type :: hyper_task_return_type

text \<open>Modelled from the spec: \<open>hyper_executor_poll\<close> belongs to the engine. During a poll
  the engine may invoke the read and write callbacks of I/O bindings, each with the
  user-data of its binding; then it returns a completed task or \<open>NULL\<close>. One
  \<open>poll_env\<close> is what one poll does: the callbacks invoked (with the context and the
  answer of the non-blocking syscall for each), the task returned, and what
  \<open>epoll_ctl(EPOLL_CTL_DEL)\<close> answers should the program destroy the task's record.\<close>

datatype callback =
    CallRead hyper_io hyper_context sys_result
  | CallWrite hyper_io hyper_context sys_result

record poll_env =
  callbacks :: "callback list"
  polled :: "polled_task option"
  epoll_del_ret :: int

text \<open>One call of \<open>accept\<close> and, when it succeeded, the answers to the calls made for the
  new descriptor.\<close>

record accept_env =
  new_fd :: int
  accept_errno :: int
  getnameinfo_ret :: int
  conn_nonblock_ret :: int
  conn_cloexec_ret :: int
  malloc_ret :: "conn_ptr option"
  epoll_add_ret :: int
  io_new :: hyper_io
  serverconn :: hyper_task

record sigread_env =
  sig_read_ret :: int
  ssi_signo :: "32 word"

record epoll_event =
  events :: "32 word"
  data_ptr :: epoll_key

datatype wait_env = WaitError | WaitReady "epoll_event list"

definition SIGINT :: "32 word" where
  "SIGINT = 2"

definition SIGQUIT :: "32 word" where
  "SIGQUIT = 3"

definition SIGTERM :: "32 word" where
  "SIGTERM = 15"

definition sizeof_signalfd_siginfo :: int where
  "sizeof_signalfd_siginfo = 128"

text \<open>The state of a run inside the loop of \<open>main\<close>: the locals \<open>listen_fd\<close> and
  \<open>signal_fd\<close>, the store of connection records, the user-data attached to I/O bindings
  and to tasks, and the answers the environment still holds.\<close>

record world =
  listen_fd :: int
  signal_fd :: int
  conns :: heap
  io_userdata :: "hyper_io \<Rightarrow> conn_ptr option option"
  task_userdata :: "hyper_task \<Rightarrow> conn_ptr option option"
  polls :: "poll_env list"
  accepts :: "accept_env list"
  sigreads :: "sigread_env list"

text \<open>Modelled from the spec: \<open>hyper_task_userdata\<close> returns what \<open>hyper_task_set_userdata\<close>
  stored, and \<open>NULL\<close> for a task that never had user-data set.\<close>

definition hyper_task_userdata :: "world \<Rightarrow> hyper_task \<Rightarrow> conn_ptr option" where
  "hyper_task_userdata w t = (case task_userdata w t of None \<Rightarrow> None | Some ud \<Rightarrow> ud)"

text \<open>Modelled from the spec: the engine invokes a callback of a binding with the
  user-data of that binding; a binding the program never created has no callbacks.\<close>

fun engine_calls :: "hyper_h \<Rightarrow> callback list \<Rightarrow> world \<Rightarrow> action list \<times> (halt + world)" where
  "engine_calls H [] w = ([], Inr w)"
| "engine_calls H (CallRead io ctx sys # cs) w =
     (case io_userdata w io of
        None \<Rightarrow> engine_calls H cs w
      | Some ud \<Rightarrow>
          then_do (read_cb H (conns w) ud ctx sys)
            (\<lambda>(n, h). engine_calls H cs (w\<lparr>conns := h\<rparr>)))"
| "engine_calls H (CallWrite io ctx sys # cs) w =
     (case io_userdata w io of
        None \<Rightarrow> engine_calls H cs w
      | Some ud \<Rightarrow>
          then_do (write_cb H (conns w) ud ctx sys)
            (\<lambda>(n, h). engine_calls H cs (w\<lparr>conns := h\<rparr>)))"

section \<open>The loop of \<open>main\<close>\<close>

text \<open>The body of the inner loop for a task the executor returned; \<open>rc\<close> is the answer
  of \<open>epoll_ctl(EPOLL_CTL_DEL)\<close>. A task of another type is neither examined nor freed.\<close>

definition reap_task :: "world \<Rightarrow> polled_task \<Rightarrow> int \<Rightarrow> action list \<times> (halt + world)" where
  "reap_task w t rc =
     (let conn = hyper_task_userdata w (task t) in
      if task_type t = HYPER_TASK_ERROR then
        then_do
          ([Printf ''handshake error!'', Printf ''error code: %d'', Printf ''details: %.*s'',
            ErrorFree (task t)],
           Inr ())
          (\<lambda>_. then_do
             (if conn \<noteq> None then free_conn_data (conns w) conn rc else ([], Inr (conns w)))
             (\<lambda>h. ([TaskFree (task t)],
                   Inr (w\<lparr>conns := h, task_userdata := (task_userdata w)(task t := None)\<rparr>))))
      else if task_type t = HYPER_TASK_EMPTY then
        then_do
          (if conn \<noteq> None
           then then_do ([Printf ''server connection complete''], Inr ())
                  (\<lambda>_. free_conn_data (conns w) conn rc)
           else ([Printf ''internal hyper task complete''], Inr (conns w)))
          (\<lambda>h. ([TaskFree (task t)],
                Inr (w\<lparr>conns := h, task_userdata := (task_userdata w)(task t := None)\<rparr>)))
      else ([], Inr w))"

text \<open>The inner \<open>while (1)\<close>: poll the executor until it returns \<open>NULL\<close>.\<close>

fun pump :: "hyper_h \<Rightarrow> poll_env list \<Rightarrow> world \<Rightarrow> action list \<times> (halt + world)" where
  "pump H [] w = ([ExecutorPoll], Inl Starved)"
| "pump H (e # es) w =
     then_do ([ExecutorPoll], Inr ())
       (\<lambda>_. then_do (engine_calls H (callbacks e) w)
          (\<lambda>w1. case polled e of
                  None \<Rightarrow> ([Polled None], Inr (w1\<lparr>polls := es\<rparr>))
                | Some t \<Rightarrow>
                    then_do ([Polled (Some (task t))], Inr ())
                      (\<lambda>_. then_do (reap_task w1 t (epoll_del_ret e)) (pump H es))))"

text \<open>The \<open>while\<close> loop around \<open>accept\<close>, with the \<open>errno\<close> test that follows it.\<close>

fun accept_loop :: "accept_env list \<Rightarrow> world \<Rightarrow> action list \<times> (halt + world)" where
  "accept_loop [] w = ([Accept (listen_fd w)], Inl Starved)"
| "accept_loop (a # as) w =
     (if 0 \<le> new_fd a then
        then_do
          ([Accept (listen_fd w), Getnameinfo]
           @ (if getnameinfo_ret a < 0
              then [Perror ''getnameinfo'', Printf ''New incoming connection from (unknown)'']
              else [Printf ''New incoming connection from (%s:%s)'']),
           Inr ())
          (\<lambda>_. if conn_nonblock_ret a \<noteq> 0 then
                 ([Fcntl (new_fd a) ''O_NONBLOCK'', Perror ''fcntl(O_NONBLOCK) (transport)''],
                  Inl (Exit 1))
               else if conn_cloexec_ret a \<noteq> 0 then
                 ([Fcntl (new_fd a) ''O_NONBLOCK'', Fcntl (new_fd a) ''FD_CLOEXEC'',
                   Perror ''fcntl(FD_CLOEXEC) (transport)''],
                  Inl (Exit 1))
               else
                 then_do
                   ([Fcntl (new_fd a) ''O_NONBLOCK'', Fcntl (new_fd a) ''FD_CLOEXEC''], Inr ())
                   (\<lambda>_. then_do
                      (create_conn_data (conns w) (malloc_ret a) (epoll_add_ret a) (new_fd a))
                      (\<lambda>(conn, h). then_do
                         (create_io (io_new a) conn
                          @ [ServiceNew, ServeConnection (io_new a) (serverconn a),
                             TaskSetUserdata (serverconn a) conn, ExecutorPush (serverconn a)],
                          Inr (w\<lparr>conns := h,
                                 io_userdata := (io_userdata w)(io_new a \<mapsto> conn),
                                 task_userdata := (task_userdata w)(serverconn a \<mapsto> conn)\<rparr>))
                         (accept_loop as))))
      else
        ([Accept (listen_fd w)] @ (if accept_errno a \<noteq> EAGAIN then [Perror ''accept''] else []),
         Inr (w\<lparr>accepts := as\<rparr>)))"

text \<open>The branch of the event loop for the signal descriptor.\<close>

definition read_signal :: "world \<Rightarrow> action list \<times> (halt + world)" where
  "read_signal w =
     (case sigreads w of
        [] \<Rightarrow> ([SysRead (signal_fd w)], Inl Starved)
      | s # ss \<Rightarrow>
          if sig_read_ret s \<noteq> sizeof_signalfd_siginfo then
            ([SysRead (signal_fd w), Perror ''read (signal_fd)''], Inl (Exit 1))
          else if ssi_signo s = SIGINT then
            ([SysRead (signal_fd w), Printf ''Caught SIGINT... exiting''], Inl GotoExit)
          else if ssi_signo s = SIGTERM then
            ([SysRead (signal_fd w), Printf ''Caught SIGTERM... exiting''], Inl GotoExit)
          else if ssi_signo s = SIGQUIT then
            ([SysRead (signal_fd w), Printf ''Caught SIGQUIT... exiting''], Inl GotoExit)
          else
            ([SysRead (signal_fd w), Printf ''Caught unexpected signal %d... ignoring''],
             Inr (w\<lparr>sigreads := ss\<rparr>)))"

text \<open>The \<open>for\<close> loop over the events \<open>epoll_wait\<close> reported.\<close>

fun events_loop :: "epoll_event list \<Rightarrow> world \<Rightarrow> action list \<times> (halt + world)" where
  "events_loop [] w = ([], Inr w)"
| "events_loop (e # es) w =
     then_do
       (case data_ptr e of
          KeyListen \<Rightarrow> accept_loop (accepts w) w
        | KeySignal \<Rightarrow> read_signal w
        | KeyConn conn \<Rightarrow>
            then_do (poke_wakers (conns w) conn (events e)) (\<lambda>h. ([], Inr (w\<lparr>conns := h\<rparr>))))
       (events_loop es)"

text \<open>The outer \<open>while (1)\<close> with the code after the label \<open>EXIT\<close>. One \<open>wait_env\<close> is the
  answer of one \<open>epoll_wait\<close>.\<close>

fun main_loop :: "hyper_h \<Rightarrow> wait_env list \<Rightarrow> world \<Rightarrow> action list \<times> halt" where
  "main_loop H [] w =
     (case pump H (polls w) w of
        (t, Inl e) \<Rightarrow> (t, e)
      | (t, Inr w1) \<Rightarrow>
          (t @ [Printf ''Processed all tasks - polling for events'', EpollWait], Starved))"
| "main_loop H (wt # wts) w =
     (case pump H (polls w) w of
        (t, Inl e) \<Rightarrow> (t, e)
      | (t, Inr w1) \<Rightarrow>
          (case wt of
             WaitError \<Rightarrow>
               (t @ [Printf ''Processed all tasks - polling for events'', EpollWait,
                     Perror ''epoll''],
                Exit 1)
           | WaitReady evs \<Rightarrow>
               (case events_loop evs w1 of
                  (t2, Inl GotoExit) \<Rightarrow>
                    (t @ [Printf ''Processed all tasks - polling for events'', EpollWait,
                          Printf ''Poll reported %d events'']
                     @ t2 @ [OptionsFree, ExecutorFree],
                     Exit 1)
                | (t2, Inl e) \<Rightarrow>
                    (t @ [Printf ''Processed all tasks - polling for events'', EpollWait,
                          Printf ''Poll reported %d events'']
                     @ t2,
                     e)
                | (t2, Inr w2) \<Rightarrow>
                    (case main_loop H wts w2 of
                       (t3, r) \<Rightarrow>
                         (t @ [Printf ''Processed all tasks - polling for events'', EpollWait,
                               Printf ''Poll reported %d events'']
                          @ t2 @ t3,
                          r)))))"

text \<open>\<open>main\<close>. The environment of a run: the answers during setup, and the answers to
  the calls of \<open>epoll_wait\<close>, \<open>hyper_executor_poll\<close>, \<open>accept\<close> and \<open>read(signal_fd)\<close>, each
  in the order of the calls.\<close>

record run_env =
  setup_replies :: setup_env
  wait_replies :: "wait_env list"
  poll_replies :: "poll_env list"
  accept_replies :: "accept_env list"
  signal_replies :: "sigread_env list"

definition main :: "hyper_h \<Rightarrow> run_env \<Rightarrow> action list \<times> halt" where
  "main H R =
     (let E = setup_replies R in
      case listen_on E of
        (t1, lfd) \<Rightarrow>
          if lfd < 0 then ([Printf ''listening on port %s on %s...''] @ t1, Exit 1)
          else
            (case register_signal_handler E of
               (t2, sfd) \<Rightarrow>
                 if sfd < 0 then ([Printf ''listening on port %s on %s...''] @ t1 @ t2, Exit 1)
                 else if epoll_create_ret E < 0 then
                   ([Printf ''listening on port %s on %s...''] @ t1 @ t2
                    @ [EpollCreate, Perror ''epoll''],
                    Exit 1)
                 else if epoll_add_listen_ret E < 0 then
                   ([Printf ''listening on port %s on %s...''] @ t1 @ t2
                    @ [EpollCreate, EpollCtlAdd lfd KeyListen,
                       Perror ''epoll_ctl (add listening)''],
                    Exit 1)
                 else if epoll_add_signal_ret E < 0 then
                   ([Printf ''listening on port %s on %s...''] @ t1 @ t2
                    @ [EpollCreate, EpollCtlAdd lfd KeyListen, EpollCtlAdd sfd KeySignal,
                       Perror ''epoll_ctl (add signal)''],
                    Exit 1)
                 else
                   (case main_loop H (wait_replies R)
                           \<lparr>listen_fd = lfd, signal_fd = sfd, conns = Map.empty,
                            io_userdata = Map.empty, task_userdata = Map.empty,
                            polls = poll_replies R, accepts = accept_replies R,
                            sigreads = signal_replies R\<rparr> of
                      (t3, r) \<Rightarrow>
                        ([Printf ''listening on port %s on %s...''] @ t1 @ t2
                         @ [EpollCreate, EpollCtlAdd lfd KeyListen, EpollCtlAdd sfd KeySignal,
                            Printf ''http handshake (hyper v%s) ...'', ExecutorNew, OptionsNew]
                         @ t3,
                         r))))"

section \<open>Histories of one connection record, and what is observed of a run\<close>

text \<open>What can happen to a connection record between its construction and its
  destruction: the engine invokes the read or the write callback on it, or the event
  loop delivers a readiness event for it.\<close>

datatype conn_op =
    OnRead hyper_context sys_result
  | OnWrite hyper_context sys_result
  | OnEvent "32 word"

fun record_history ::
  "hyper_h \<Rightarrow> conn_ptr \<Rightarrow> conn_op list \<Rightarrow> heap \<Rightarrow> action list \<times> (halt + heap)" where
  "record_history H p [] h = ([], Inr h)"
| "record_history H p (OnRead ctx sys # ops) h =
     then_do (read_cb H h (Some p) ctx sys) (\<lambda>(n, h'). record_history H p ops h')"
| "record_history H p (OnWrite ctx sys # ops) h =
     then_do (write_cb H h (Some p) ctx sys) (\<lambda>(n, h'). record_history H p ops h')"
| "record_history H p (OnEvent ev # ops) h =
     then_do (poke_wakers h (Some p) ev) (record_history H p ops)"


text \<open>The resumption handles of a slot that are outstanding after a sequence of calls:
  obtained from a context, and neither woken nor freed since.\<close>

definition track :: "slot \<Rightarrow> hyper_waker list \<Rightarrow> action \<Rightarrow> hyper_waker list" where
  "track s ws a =
     (case a of
        ContextWaker s' w \<Rightarrow> if s' = s then ws @ [w] else ws
      | WakerFree s' w \<Rightarrow> if s' = s then remove1 w ws else ws
      | WakerWake s' w \<Rightarrow> if s' = s then remove1 w ws else ws
      | _ \<Rightarrow> ws)"

definition outstanding :: "slot \<Rightarrow> action list \<Rightarrow> hyper_waker list" where
  "outstanding s tr = foldl (track s) [] tr"

text \<open>The handles of a slot that a sequence of calls freed, in order.\<close>

definition freed :: "slot \<Rightarrow> action list \<Rightarrow> hyper_waker list" where
  "freed s tr =
     concat (map (\<lambda>a. case a of WakerFree s' w \<Rightarrow> if s' = s then [w] else [] | _ \<Rightarrow> []) tr)"

text \<open>The content of a slot, as a list of at most one handle.\<close>

definition stored :: "hyper_waker option \<Rightarrow> hyper_waker list" where
  "stored x = (case x of None \<Rightarrow> [] | Some w \<Rightarrow> [w])"

text \<open>A monitor for the order of the polls and the waits. The executor is known to
  hold no completed task when the last poll returned \<open>NULL\<close> and the program has only
  printed since: \<open>quiescent\<close> updates that knowledge by one call, and
  \<open>wait_guarded q tr\<close> says that every \<open>epoll_wait\<close> of \<open>tr\<close> is made with that knowledge
  (\<open>q\<close> is the knowledge before \<open>tr\<close>).\<close>

definition quiescent :: "bool \<Rightarrow> action \<Rightarrow> bool" where
  "quiescent q a = (case a of Polled None \<Rightarrow> True | Printf _ \<Rightarrow> q | _ \<Rightarrow> False)"

fun wait_guarded :: "bool \<Rightarrow> action list \<Rightarrow> bool" where
  "wait_guarded q [] = True"
| "wait_guarded q (a # as) = ((if a = EpollWait then q else True) \<and> wait_guarded (quiescent q a) as)"

text \<open>The answers of the executor that a sequence of calls reports, in order: one for
  each poll that returned.\<close>

definition poll_answers :: "action list \<Rightarrow> hyper_task option list" where
  "poll_answers tr = concat (map (\<lambda>a. case a of Polled x \<Rightarrow> [x] | _ \<Rightarrow> []) tr)"

text \<open>What one answer of the environment to \<open>hyper_executor_poll\<close> makes that poll
  return.\<close>

definition poll_answer :: "poll_env \<Rightarrow> hyper_task option" where
  "poll_answer e = map_option task (polled e)"

text \<open>The diagnostics among a sequence of calls: what \<open>perror\<close> and
  \<open>fprintf(stderr, ...)\<close> printed, in order.\<close>

definition is_diagnostic :: "action \<Rightarrow> bool" where
  "is_diagnostic a = (case a of Perror _ \<Rightarrow> True | Fprintf _ \<Rightarrow> True | _ \<Rightarrow> False)"

definition diagnostics :: "action list \<Rightarrow> action list" where
  "diagnostics tr = filter is_diagnostic tr"

section \<open>Example environments\<close>

text \<open>Concrete environments on which the model is run: the sentinels with the values
  \<open>4294967295\<close> and \<open>4294967294\<close>, a setup in which every call succeeds (the listening
  socket is descriptor 3, the signal descriptor 4), a world with no connection, a poll
  that finds nothing, an accepted connection (descriptor 6, record at address 100,
  binding 200, task 300), an \<open>accept\<close> that would block, and a run in which one
  connection is accepted, stalls on a read, is woken, completes, and \<open>SIGTERM\<close> arrives.\<close>

definition example_hyper_h :: hyper_h where
  "example_hyper_h = \<lparr>HYPER_IO_PENDING = 0xFFFFFFFF, HYPER_IO_ERROR = 0xFFFFFFFE\<rparr>"

definition example_setup :: setup_env where
  "example_setup =
     \<lparr>gai_rc = 0, gai_result = [\<lparr>socket_ret = 3, setsockopt_ret = 0, bind_ret = 0\<rparr>],
      fcntl_nonblock_ret = 0, fcntl_cloexec_ret = 0, listen_ret = 0, signalfd_ret = 4,
      sigprocmask_ret = 0, epoll_create_ret = 5, epoll_add_listen_ret = 0,
      epoll_add_signal_ret = 0\<rparr>"

definition example_world :: world where
  "example_world =
     \<lparr>listen_fd = 3, signal_fd = 4, conns = Map.empty, io_userdata = Map.empty,
      task_userdata = Map.empty, polls = [], accepts = [], sigreads = []\<rparr>"

definition idle_poll :: poll_env where
  "idle_poll = \<lparr>callbacks = [], polled = None, epoll_del_ret = 0\<rparr>"

definition example_accept :: accept_env where
  "example_accept =
     \<lparr>new_fd = 6, accept_errno = 0, getnameinfo_ret = 0, conn_nonblock_ret = 0,
      conn_cloexec_ret = 0, malloc_ret = Some 100, epoll_add_ret = 0, io_new = 200,
      serverconn = 300\<rparr>"

definition accept_again :: accept_env where
  "accept_again =
     \<lparr>new_fd = - 1, accept_errno = 11, getnameinfo_ret = 0, conn_nonblock_ret = 0,
      conn_cloexec_ret = 0, malloc_ret = None, epoll_add_ret = 0, io_new = 0,
      serverconn = 0\<rparr>"

definition example_run :: run_env where
  "example_run =
     \<lparr>setup_replies = example_setup,
      wait_replies =
        [WaitReady [\<lparr>events = 1, data_ptr = KeyListen\<rparr>],
         WaitReady [\<lparr>events = 1, data_ptr = KeyConn (Some 100)\<rparr>],
         WaitReady [\<lparr>events = 1, data_ptr = KeySignal\<rparr>]],
      poll_replies =
        [idle_poll,
         \<lparr>callbacks = [CallRead 200 (Context 7) \<lparr>ret = - 1, errno = 11\<rparr>], polled = None,
          epoll_del_ret = 0\<rparr>,
         \<lparr>callbacks = [CallRead 200 (Context 8) \<lparr>ret = 0, errno = 0\<rparr>],
          polled = Some \<lparr>task = 300, task_type = HYPER_TASK_EMPTY\<rparr>, epoll_del_ret = 0\<rparr>,
         idle_poll],
      accept_replies = [example_accept, accept_again],
      signal_replies = [\<lparr>sig_read_ret = 128, ssi_signo = 15\<rparr>]\<rparr>"

section \<open>Basic facts\<close>

lemma nonneg_count: "0 \<le> sint (w::64 word) \<Longrightarrow> uint w = sint w"
proof -
  assume nn: "0 \<le> sint w"
  have "sint w < 2 ^ 64" using sint_lt [of w] by simp
  with nn have "take_bit 64 (sint w) = sint w" by (simp add: take_bit_int_eq_self)
  then show ?thesis using uint_sint [of w] by simp
qed

lemma then_do_Inr [simp]: "then_do (t, Inr a) f = (t @ fst (f a), snd (f a))"
  by (simp add: then_do_def split: prod.splits)

lemma then_do_Inl [simp]: "then_do (t, Inl e) f = (t, Inl e)"
  by (simp add: then_do_def)

lemma fst_then_do:
  "fst (then_do m f) = fst m @ (case snd m of Inl e \<Rightarrow> [] | Inr a \<Rightarrow> fst (f a))"
  by (cases m) (auto simp: then_do_def split: sum.splits prod.splits)

lemma snd_then_do:
  "snd (then_do m f) = (case snd m of Inl e \<Rightarrow> Inl e | Inr a \<Rightarrow> snd (f a))"
  by (cases m) (auto simp: then_do_def split: sum.splits prod.splits)

section \<open>The I/O adapter\<close>

text \<open>
  C1. On a connection record (\<open>userdata\<close> points to an allocated record), \<open>read_cb\<close>
  and \<open>write_cb\<close> behave alike. When the syscall returned a non-negative count, the
  callback returns that count (the same 64 bits, which as \<open>size_t\<close> are the same number)
  and leaves the record alone. When it failed with \<open>EAGAIN\<close>, the callback returns
  the pending sentinel, the last call it made obtained a handle from the context, and
  that handle is in the read (resp. write) slot of the record. When it failed with
  another \<open>errno\<close>, the callback returns the I/O-error sentinel and leaves the record
  alone.
\<close>

theorem io_callbacks_contract:
  assumes "h p = Some conn"
  shows "(0 \<le> sint (ret sys) \<longrightarrow>
            snd (read_cb H h (Some p) ctx sys) = Inr (ret sys, h)
          \<and> snd (write_cb H h (Some p) ctx sys) = Inr (ret sys, h)
          \<and> uint (ret sys) = sint (ret sys))
       \<and> (sint (ret sys) < 0 \<and> errno sys = EAGAIN \<longrightarrow>
            snd (read_cb H h (Some p) ctx sys) =
              Inr (HYPER_IO_PENDING H,
                   h(p \<mapsto> conn\<lparr>read_waker := Some (hyper_context_waker ctx)\<rparr>))
          \<and> last (fst (read_cb H h (Some p) ctx sys)) =
              ContextWaker ReadSlot (hyper_context_waker ctx)
          \<and> snd (write_cb H h (Some p) ctx sys) =
              Inr (HYPER_IO_PENDING H,
                   h(p \<mapsto> conn\<lparr>write_waker := Some (hyper_context_waker ctx)\<rparr>))
          \<and> last (fst (write_cb H h (Some p) ctx sys)) =
              ContextWaker WriteSlot (hyper_context_waker ctx))
       \<and> (sint (ret sys) < 0 \<and> errno sys \<noteq> EAGAIN \<longrightarrow>
            snd (read_cb H h (Some p) ctx sys) = Inr (HYPER_IO_ERROR H, h)
          \<and> snd (write_cb H h (Some p) ctx sys) = Inr (HYPER_IO_ERROR H, h))"
  using assms
  by (simp add: read_cb_def write_cb_def deref_def Let_def nonneg_count)

theorem io_callbacks_contract_witness:
  "snd (read_cb \<lparr>HYPER_IO_PENDING = 0xFFFFFFFF, HYPER_IO_ERROR = 0xFFFFFFFE\<rparr>
          (Map.empty(7 \<mapsto> \<lparr>fd = 5, read_waker = None, write_waker = None\<rparr>)) (Some 7)
          (Context 3) \<lparr>ret = 42, errno = 0\<rparr>)
     = Inr (42, Map.empty(7 \<mapsto> \<lparr>fd = 5, read_waker = None, write_waker = None\<rparr>))
   \<and> snd (read_cb \<lparr>HYPER_IO_PENDING = 0xFFFFFFFF, HYPER_IO_ERROR = 0xFFFFFFFE\<rparr>
          (Map.empty(7 \<mapsto> \<lparr>fd = 5, read_waker = None, write_waker = None\<rparr>)) (Some 7)
          (Context 3) \<lparr>ret = - 1, errno = 11\<rparr>)
     = Inr (0xFFFFFFFF, Map.empty(7 \<mapsto> \<lparr>fd = 5, read_waker = Some 3, write_waker = None\<rparr>))
   \<and> snd (write_cb \<lparr>HYPER_IO_PENDING = 0xFFFFFFFF, HYPER_IO_ERROR = 0xFFFFFFFE\<rparr>
          (Map.empty(7 \<mapsto> \<lparr>fd = 5, read_waker = None, write_waker = None\<rparr>)) (Some 7)
          (Context 3) \<lparr>ret = - 1, errno = 104\<rparr>)
     = Inr (0xFFFFFFFE, Map.empty(7 \<mapsto> \<lparr>fd = 5, read_waker = None, write_waker = None\<rparr>))"
  using io_callbacks_contract [of "Map.empty(7 \<mapsto> \<lparr>fd = 5, read_waker = None, write_waker = None\<rparr>)" 7
          "\<lparr>fd = 5, read_waker = None, write_waker = None\<rparr>" "\<lparr>ret = 42, errno = 0\<rparr>"
          "\<lparr>HYPER_IO_PENDING = 0xFFFFFFFF, HYPER_IO_ERROR = 0xFFFFFFFE\<rparr>" "Context 3"]
        io_callbacks_contract [of "Map.empty(7 \<mapsto> \<lparr>fd = 5, read_waker = None, write_waker = None\<rparr>)" 7
          "\<lparr>fd = 5, read_waker = None, write_waker = None\<rparr>" "\<lparr>ret = - 1, errno = 11\<rparr>"
          "\<lparr>HYPER_IO_PENDING = 0xFFFFFFFF, HYPER_IO_ERROR = 0xFFFFFFFE\<rparr>" "Context 3"]
        io_callbacks_contract [of "Map.empty(7 \<mapsto> \<lparr>fd = 5, read_waker = None, write_waker = None\<rparr>)" 7
          "\<lparr>fd = 5, read_waker = None, write_waker = None\<rparr>" "\<lparr>ret = - 1, errno = 104\<rparr>"
          "\<lparr>HYPER_IO_PENDING = 0xFFFFFFFF, HYPER_IO_ERROR = 0xFFFFFFFE\<rparr>" "Context 3"]
  by (simp add: EAGAIN_def)

section \<open>Readiness events\<close>



section \<open>Destruction of a connection record\<close>

text \<open>
  C4. \<open>free_conn_data\<close> on an allocated record makes, apart from the diagnostic, exactly
  these calls in this order: deregister the descriptor of the record from the notifier,
  free the read handle if one is stored, free the write handle if one is stored, close
  the descriptor, release the record. Whatever the deregistration answered, the function
  returns with the record gone from the store; when the deregistration failed, the
  diagnostic is printed right after it and the function goes on.
\<close>

theorem record_destruction_order:
  assumes "h p = Some c"
  shows "filter (\<lambda>a. a \<noteq> Perror ''epoll_ctl (transport)'') (fst (free_conn_data h (Some p) rc)) =
           [EpollCtlDel (fd c)]
           @ map (WakerFree ReadSlot) (stored (read_waker c))
           @ map (WakerFree WriteSlot) (stored (write_waker c))
           @ [Close (fd c), Free (Some p)]
       \<and> snd (free_conn_data h (Some p) rc) = Inr (h(p := None))
       \<and> (rc < 0 \<longrightarrow> take 2 (fst (free_conn_data h (Some p) rc))
                        = [EpollCtlDel (fd c), Perror ''epoll_ctl (transport)''])"
  using assms
  by (auto simp: free_conn_data_def deref_def stored_def split: option.splits)

theorem record_destruction_order_witness:
  "fst (free_conn_data (Map.empty(7 \<mapsto> \<lparr>fd = 5, read_waker = Some 8, write_waker = Some 9\<rparr>))
          (Some 7) (- 1))
     = [EpollCtlDel 5, Perror ''epoll_ctl (transport)'', WakerFree ReadSlot 8,
        WakerFree WriteSlot 9, Close 5, Free (Some 7)]
   \<and> snd (free_conn_data (Map.empty(7 \<mapsto> \<lparr>fd = 5, read_waker = Some 8, write_waker = Some 9\<rparr>))
          (Some 7) (- 1))
     = Inr ((Map.empty(7 \<mapsto> \<lparr>fd = 5, read_waker = Some 8, write_waker = Some 9\<rparr>))(7 := None))"
  using record_destruction_order [of "Map.empty(7 \<mapsto> \<lparr>fd = 5, read_waker = Some 8, write_waker = Some 9\<rparr>)" 7
          "\<lparr>fd = 5, read_waker = Some 8, write_waker = Some 9\<rparr>" "- 1"]
  by (simp add: free_conn_data_def deref_def stored_def)

section \<open>Replacing a stored handle\<close>

lemma freed_simps [simp]:
  "freed s [] = []"
  "freed s (tr @ tr') = freed s tr @ freed s tr'"
  "freed s (WakerFree s' w # tr) = (if s' = s then w # freed s tr else freed s tr)"
  "freed s (ContextWaker s' w # tr) = freed s tr"
  "freed s (SysRead n # tr) = freed s tr"
  "freed s (SysWrite n # tr) = freed s tr"
  by (simp_all add: freed_def)








section \<open>At most one outstanding handle per slot\<close>

lemma track_simps [simp]:
  "track s ws (ContextWaker s' w) = (if s' = s then ws @ [w] else ws)"
  "track s ws (WakerFree s' w) = (if s' = s then remove1 w ws else ws)"
  "track s ws (WakerWake s' w) = (if s' = s then remove1 w ws else ws)"
  "track s ws (SysRead n) = ws"
  "track s ws (SysWrite n) = ws"
  "track s ws (EpollCtlDel n) = ws"
  "track s ws (EpollCtlAdd n k) = ws"
  "track s ws (Perror str) = ws"
  "track s ws (Close n) = ws"
  "track s ws (Free m) = ws"
  "track s ws (Malloc m) = ws"
  by (simp_all add: track_def)

lemma read_cb_ledger:
  assumes "h p = Some c"
  shows "\<exists>n h' c'. snd (read_cb H h (Some p) ctx sys) = Inr (n, h') \<and> h' p = Some c'
           \<and> foldl (track ReadSlot) (stored (read_waker c)) (fst (read_cb H h (Some p) ctx sys))
               = stored (read_waker c')
           \<and> foldl (track WriteSlot) (stored (write_waker c)) (fst (read_cb H h (Some p) ctx sys))
               = stored (write_waker c')"
  using assms
  by (auto simp: read_cb_def deref_def Let_def stored_def split: option.splits)

lemma write_cb_ledger:
  assumes "h p = Some c"
  shows "\<exists>n h' c'. snd (write_cb H h (Some p) ctx sys) = Inr (n, h') \<and> h' p = Some c'
           \<and> foldl (track ReadSlot) (stored (read_waker c)) (fst (write_cb H h (Some p) ctx sys))
               = stored (read_waker c')
           \<and> foldl (track WriteSlot) (stored (write_waker c)) (fst (write_cb H h (Some p) ctx sys))
               = stored (write_waker c')"
  using assms
  by (auto simp: write_cb_def deref_def Let_def stored_def split: option.splits)

lemma poke_wakers_ledger:
  assumes "h p = Some c"
  shows "\<exists>h' c'. snd (poke_wakers h (Some p) ev) = Inr h' \<and> h' p = Some c'
           \<and> foldl (track ReadSlot) (stored (read_waker c)) (fst (poke_wakers h (Some p) ev))
               = stored (read_waker c')
           \<and> foldl (track WriteSlot) (stored (write_waker c)) (fst (poke_wakers h (Some p) ev))
               = stored (write_waker c')"
  using assms
  by (auto simp: poke_wakers_def deref_def Let_def stored_def split: option.splits)

lemma free_conn_data_ledger:
  assumes "h p = Some c"
  shows "foldl (track ReadSlot) (stored (read_waker c)) (fst (free_conn_data h (Some p) rc)) = []
       \<and> foldl (track WriteSlot) (stored (write_waker c)) (fst (free_conn_data h (Some p) rc)) = []"
  using assms
  by (auto simp: free_conn_data_def deref_def stored_def split: option.splits)

lemma record_history_ledger:
  "h p = Some c \<Longrightarrow>
   \<exists>h' c'. snd (record_history H p ops h) = Inr h' \<and> h' p = Some c'
     \<and> foldl (track ReadSlot) (stored (read_waker c)) (fst (record_history H p ops h))
         = stored (read_waker c')
     \<and> foldl (track WriteSlot) (stored (write_waker c)) (fst (record_history H p ops h))
         = stored (write_waker c')"
proof (induction ops arbitrary: h c)
  case Nil
  then show ?case by simp
next
  case (Cons op ops)
  show ?case
  proof (cases op)
    case (OnRead ctx sys)
    from Cons.prems read_cb_ledger [where h = h and p = p and c = c and H = H and ctx = ctx and sys = sys]
    obtain n h1 c1 where
      s: "snd (read_cb H h (Some p) ctx sys) = Inr (n, h1)" and a: "h1 p = Some c1"
      and r: "foldl (track ReadSlot) (stored (read_waker c)) (fst (read_cb H h (Some p) ctx sys))
               = stored (read_waker c1)"
      and w: "foldl (track WriteSlot) (stored (write_waker c)) (fst (read_cb H h (Some p) ctx sys))
               = stored (write_waker c1)"
      by blast
    from a Cons.IH [where h = h1 and c = c1] obtain h' c' where
      "snd (record_history H p ops h1) = Inr h'" "h' p = Some c'"
      "foldl (track ReadSlot) (stored (read_waker c1)) (fst (record_history H p ops h1))
         = stored (read_waker c')"
      "foldl (track WriteSlot) (stored (write_waker c1)) (fst (record_history H p ops h1))
         = stored (write_waker c')"
      by blast
    with s r w OnRead show ?thesis
      by (simp add: fst_then_do snd_then_do)
  next
    case (OnWrite ctx sys)
    from Cons.prems write_cb_ledger [where h = h and p = p and c = c and H = H and ctx = ctx and sys = sys]
    obtain n h1 c1 where
      s: "snd (write_cb H h (Some p) ctx sys) = Inr (n, h1)" and a: "h1 p = Some c1"
      and r: "foldl (track ReadSlot) (stored (read_waker c)) (fst (write_cb H h (Some p) ctx sys))
               = stored (read_waker c1)"
      and w: "foldl (track WriteSlot) (stored (write_waker c)) (fst (write_cb H h (Some p) ctx sys))
               = stored (write_waker c1)"
      by blast
    from a Cons.IH [where h = h1 and c = c1] obtain h' c' where
      "snd (record_history H p ops h1) = Inr h'" "h' p = Some c'"
      "foldl (track ReadSlot) (stored (read_waker c1)) (fst (record_history H p ops h1))
         = stored (read_waker c')"
      "foldl (track WriteSlot) (stored (write_waker c1)) (fst (record_history H p ops h1))
         = stored (write_waker c')"
      by blast
    with s r w OnWrite show ?thesis
      by (simp add: fst_then_do snd_then_do)
  next
    case (OnEvent ev)
    from Cons.prems poke_wakers_ledger [where h = h and p = p and c = c and ev = ev]
    obtain h1 c1 where
      s: "snd (poke_wakers h (Some p) ev) = Inr h1" and a: "h1 p = Some c1"
      and r: "foldl (track ReadSlot) (stored (read_waker c)) (fst (poke_wakers h (Some p) ev))
               = stored (read_waker c1)"
      and w: "foldl (track WriteSlot) (stored (write_waker c)) (fst (poke_wakers h (Some p) ev))
               = stored (write_waker c1)"
      by blast
    from a Cons.IH [where h = h1 and c = c1] obtain h' c' where
      "snd (record_history H p ops h1) = Inr h'" "h' p = Some c'"
      "foldl (track ReadSlot) (stored (read_waker c1)) (fst (record_history H p ops h1))
         = stored (read_waker c')"
      "foldl (track WriteSlot) (stored (write_waker c1)) (fst (record_history H p ops h1))
         = stored (write_waker c')"
      by blast
    with s r w OnEvent show ?thesis
      by (simp add: fst_then_do snd_then_do)
  qed
qed

lemma stored_le1 [simp]: "length (stored x) \<le> Suc 0"
  by (simp add: stored_def split: option.splits)

text \<open>
  C6. From the construction of a connection record on, whatever sequence of callback
  invocations (with any syscall outcome) and readiness events (with any flags) it goes
  through, every operation returns, the record stays allocated, and the handles
  outstanding for each slot (obtained from a context and neither woken nor freed since)
  are exactly the content of that slot: at most one read handle and at most one write
  handle. The statement holds for every sequence, hence after every operation of a
  history. After the destruction of the record no handle is outstanding.
\<close>

theorem one_handle_per_slot:
  assumes "0 \<le> rc"
  shows "\<exists>h c h'.
           snd (create_conn_data h0 (Some p) rc nfd) = Inr (Some p, h)
         \<and> snd (record_history H p ops h) = Inr h' \<and> h' p = Some c
         \<and> outstanding ReadSlot (fst (create_conn_data h0 (Some p) rc nfd)
                                    @ fst (record_history H p ops h))
             = stored (read_waker c)
         \<and> outstanding WriteSlot (fst (create_conn_data h0 (Some p) rc nfd)
                                     @ fst (record_history H p ops h))
             = stored (write_waker c)
         \<and> length (outstanding ReadSlot (fst (create_conn_data h0 (Some p) rc nfd)
                                           @ fst (record_history H p ops h))) \<le> 1
         \<and> length (outstanding WriteSlot (fst (create_conn_data h0 (Some p) rc nfd)
                                            @ fst (record_history H p ops h))) \<le> 1
         \<and> outstanding ReadSlot (fst (create_conn_data h0 (Some p) rc nfd)
                                    @ fst (record_history H p ops h)
                                    @ fst (free_conn_data h' (Some p) rc')) = []
         \<and> outstanding WriteSlot (fst (create_conn_data h0 (Some p) rc nfd)
                                     @ fst (record_history H p ops h)
                                     @ fst (free_conn_data h' (Some p) rc')) = []"
proof -
  let ?c0 = "\<lparr>fd = nfd, read_waker = None, write_waker = None\<rparr>"
  let ?h = "h0(p \<mapsto> ?c0)"
  have cr: "create_conn_data h0 (Some p) rc nfd
              = ([Malloc (Some p), EpollCtlAdd nfd (KeyConn (Some p))], Inr (Some p, ?h))"
    using assms by (simp add: create_conn_data_def)
  have "?h p = Some ?c0" by simp
  with record_history_ledger [where h = "?h" and p = p and c = "?c0" and H = H and ops = ops] obtain h' c where
    s: "snd (record_history H p ops ?h) = Inr h'" and a: "h' p = Some c"
    and r: "foldl (track ReadSlot) [] (fst (record_history H p ops ?h)) = stored (read_waker c)"
    and w: "foldl (track WriteSlot) [] (fst (record_history H p ops ?h)) = stored (write_waker c)"
    by (auto simp: stored_def)
  from free_conn_data_ledger [where h = h' and p = p and c = c and rc = rc'] r w s a cr show ?thesis
    by (simp add: outstanding_def)
qed

theorem one_handle_per_slot_witness:
  "(0::int) \<le> 0 \<and>
   (\<exists>h c h'.
      snd (create_conn_data Map.empty (Some 7) 0 5) = Inr (Some 7, h)
    \<and> snd (record_history \<lparr>HYPER_IO_PENDING = 0xFFFFFFFF, HYPER_IO_ERROR = 0xFFFFFFFE\<rparr> 7
             [OnRead (Context 3) \<lparr>ret = - 1, errno = 11\<rparr>,
              OnRead (Context 4) \<lparr>ret = - 1, errno = 11\<rparr>, OnEvent 1] h) = Inr h'
    \<and> h' 7 = Some c
    \<and> length (outstanding ReadSlot
         (fst (create_conn_data Map.empty (Some 7) 0 5)
          @ fst (record_history \<lparr>HYPER_IO_PENDING = 0xFFFFFFFF, HYPER_IO_ERROR = 0xFFFFFFFE\<rparr> 7
                   [OnRead (Context 3) \<lparr>ret = - 1, errno = 11\<rparr>,
                    OnRead (Context 4) \<lparr>ret = - 1, errno = 11\<rparr>, OnEvent 1] h))) \<le> 1)"
proof
  show z: "(0::int) \<le> 0" by simp
  from one_handle_per_slot [OF z, of Map.empty 7 5
         "\<lparr>HYPER_IO_PENDING = 0xFFFFFFFF, HYPER_IO_ERROR = 0xFFFFFFFE\<rparr>"
         "[OnRead (Context 3) \<lparr>ret = - 1, errno = 11\<rparr>,
           OnRead (Context 4) \<lparr>ret = - 1, errno = 11\<rparr>, OnEvent 1]" 0]
  show "\<exists>h c h'.
      snd (create_conn_data Map.empty (Some 7) 0 5) = Inr (Some 7, h)
    \<and> snd (record_history \<lparr>HYPER_IO_PENDING = 0xFFFFFFFF, HYPER_IO_ERROR = 0xFFFFFFFE\<rparr> 7
             [OnRead (Context 3) \<lparr>ret = - 1, errno = 11\<rparr>,
              OnRead (Context 4) \<lparr>ret = - 1, errno = 11\<rparr>, OnEvent 1] h) = Inr h'
    \<and> h' 7 = Some c
    \<and> length (outstanding ReadSlot
         (fst (create_conn_data Map.empty (Some 7) 0 5)
          @ fst (record_history \<lparr>HYPER_IO_PENDING = 0xFFFFFFFF, HYPER_IO_ERROR = 0xFFFFFFFE\<rparr> 7
                   [OnRead (Context 3) \<lparr>ret = - 1, errno = 11\<rparr>,
                    OnRead (Context 4) \<lparr>ret = - 1, errno = 11\<rparr>, OnEvent 1] h))) \<le> 1"
    by blast
qed

section \<open>The executor is drained before every wait\<close>

lemma in_then_do:
  "x \<in> set (fst (then_do m f))
     \<longleftrightarrow> x \<in> set (fst m) \<or> (\<exists>a. snd m = Inr a \<and> x \<in> set (fst (f a)))"
  by (cases m) (auto simp: then_do_def split: sum.splits prod.splits)

lemma read_cb_no_wait: "EpollWait \<notin> set (fst (read_cb H h ud ctx sys))"
  by (auto simp: in_then_do read_cb_def Let_def split: option.splits)

lemma write_cb_no_wait: "EpollWait \<notin> set (fst (write_cb H h ud ctx sys))"
  by (auto simp: in_then_do write_cb_def Let_def split: option.splits)

lemma poke_wakers_no_wait: "EpollWait \<notin> set (fst (poke_wakers h conn ev))"
  by (auto simp: in_then_do poke_wakers_def Let_def split: option.splits)

lemma free_conn_data_no_wait: "EpollWait \<notin> set (fst (free_conn_data h conn rc))"
  by (auto simp: in_then_do free_conn_data_def split: option.splits)

lemma create_conn_data_no_wait: "EpollWait \<notin> set (fst (create_conn_data h m rc nfd))"
  by (auto simp: in_then_do create_conn_data_def split: option.splits)

lemma engine_calls_no_wait: "EpollWait \<notin> set (fst (engine_calls H cs w))"
proof (induction H cs w rule: engine_calls.induct)
  case (1 H w)
  show ?case by simp
next
  case (2 H io ctx sys cs w)
  then show ?case
    by (auto simp: in_then_do read_cb_no_wait split_def split: option.splits)
next
  case (3 H io ctx sys cs w)
  then show ?case
    by (auto simp: in_then_do write_cb_no_wait split_def split: option.splits)
qed

lemma reap_task_no_wait: "EpollWait \<notin> set (fst (reap_task w t rc))"
  by (auto simp: in_then_do reap_task_def Let_def free_conn_data_no_wait)

lemma pump_no_wait: "EpollWait \<notin> set (fst (pump H ps w))"
proof (induction ps arbitrary: w)
  case Nil
  show ?case by simp
next
  case (Cons e es)
  show ?case
    by (auto simp: in_then_do engine_calls_no_wait reap_task_no_wait Cons.IH split: option.splits)
qed

lemma accept_loop_no_wait: "EpollWait \<notin> set (fst (accept_loop as w))"
proof (induction as arbitrary: w)
  case Nil
  show ?case by simp
next
  case (Cons a as)
  show ?case
    by (auto simp: in_then_do create_conn_data_no_wait create_io_def Cons.IH split_def)
qed

lemma read_signal_no_wait: "EpollWait \<notin> set (fst (read_signal w))"
  by (auto simp: in_then_do read_signal_def split: list.splits)

lemma events_loop_no_wait: "EpollWait \<notin> set (fst (events_loop es w))"
proof (induction es arbitrary: w)
  case Nil
  show ?case by simp
next
  case (Cons e es)
  show ?case
    by (auto simp: in_then_do accept_loop_no_wait read_signal_no_wait poke_wakers_no_wait Cons.IH
             split: epoll_key.splits)
qed

lemma try_addrs_no_wait: "EpollWait \<notin> set (fst (try_addrs sock as))"
  by (induction as arbitrary: sock) (auto simp: split_def)

lemma listen_on_no_wait: "EpollWait \<notin> set (fst (listen_on E))"
  using try_addrs_no_wait [of "- 1" "gai_result E"]
  by (auto simp: listen_on_def split_def)

lemma register_signal_handler_no_wait: "EpollWait \<notin> set (fst (register_signal_handler E))"
  by (auto simp: in_then_do register_signal_handler_def)

lemma wait_guarded_append:
  "wait_guarded q (xs @ ys) = (wait_guarded q xs \<and> wait_guarded (foldl quiescent q xs) ys)"
  by (induction xs arbitrary: q) auto

lemma no_wait_guarded: "EpollWait \<notin> set xs \<Longrightarrow> wait_guarded q xs"
  by (induction xs arbitrary: q) auto

lemma pump_quiescent:
  "snd (pump H ps w) = Inr w' \<Longrightarrow> foldl quiescent q (fst (pump H ps w))"
proof (induction ps arbitrary: w q)
  case Nil
  then show ?case by simp
next
  case (Cons e es)
  show ?case
  proof (cases "snd (engine_calls H (callbacks e) w)")
    case (Inl x)
    with Cons.prems show ?thesis by (simp add: snd_then_do)
  next
    case (Inr w1)
    show ?thesis
    proof (cases "polled e")
      case None
      with Inr show ?thesis
        by (simp add: fst_then_do quiescent_def)
    next
      case (Some t)
      show ?thesis
      proof (cases "snd (reap_task w1 t (epoll_del_ret e))")
        case (Inl x)
        with Cons.prems Inr Some show ?thesis by (simp add: snd_then_do)
      next
        case r: (Inr w2)
        with Cons.prems Inr Some have "snd (pump H es w2) = Inr w'"
          by (simp add: snd_then_do)
        from Cons.IH [OF this] Inr Some r show ?thesis
          by (simp add: fst_then_do)
      qed
    qed
  qed
qed

lemma main_loop_guarded: "wait_guarded q (fst (main_loop H wts w))"
proof (induction wts arbitrary: w q)
  case Nil
  show ?case
    using pump_quiescent [of H "polls w" w _ q] pump_no_wait [of H "polls w" w]
    by (auto simp: split_def wait_guarded_append no_wait_guarded quiescent_def split: sum.splits)
next
  case (Cons wt wts)
  show ?case
    using pump_quiescent [of H "polls w" w _ q] pump_no_wait [of H "polls w" w]
    by (auto simp: split_def wait_guarded_append no_wait_guarded quiescent_def
                   events_loop_no_wait Cons.IH
             split: sum.splits wait_env.splits halt.splits)
qed

lemma pump_ends_with_null:
  "snd (pump H ps w) = Inr w' \<Longrightarrow> last (fst (pump H ps w)) = Polled None"
proof (induction ps arbitrary: w)
  case Nil
  then show ?case by simp
next
  case (Cons e es)
  show ?case
  proof (cases "snd (engine_calls H (callbacks e) w)")
    case (Inl x)
    with Cons.prems show ?thesis by (simp add: snd_then_do)
  next
    case (Inr w1)
    show ?thesis
    proof (cases "polled e")
      case None
      with Inr show ?thesis
        by (simp add: fst_then_do)
    next
      case (Some t)
      show ?thesis
      proof (cases "snd (reap_task w1 t (epoll_del_ret e))")
        case (Inl x)
        with Cons.prems Inr Some show ?thesis by (simp add: snd_then_do)
      next
        case r: (Inr w2)
        with Cons.prems Inr Some have s: "snd (pump H es w2) = Inr w'"
          by (simp add: snd_then_do)
        have ne: "fst (pump H es w2) \<noteq> []"
          by (cases es) (simp_all add: fst_then_do)
        from Cons.IH [OF s] Inr Some r ne show ?thesis
          by (simp add: fst_then_do)
      qed
    qed
  qed
qed

lemma poll_answers_simps [simp]:
  "poll_answers [] = []"
  "poll_answers (tr @ tr') = poll_answers tr @ poll_answers tr'"
  "poll_answers (Polled x # tr) = x # poll_answers tr"
  "poll_answers (ExecutorPoll # tr) = poll_answers tr"
  "poll_answers (Printf s # tr) = poll_answers tr"
  "poll_answers (Perror s # tr) = poll_answers tr"
  "poll_answers (EpollWait # tr) = poll_answers tr"
  "poll_answers (OptionsFree # tr) = poll_answers tr"
  "poll_answers (ExecutorFree # tr) = poll_answers tr"
  "poll_answers (EpollCreate # tr) = poll_answers tr"
  "poll_answers (EpollCtlAdd n k # tr) = poll_answers tr"
  "poll_answers (ExecutorNew # tr) = poll_answers tr"
  "poll_answers (OptionsNew # tr) = poll_answers tr"
  by (simp_all add: poll_answers_def)

lemma no_poll_answers: "\<forall>x. Polled x \<notin> set tr \<Longrightarrow> poll_answers tr = []"
  by (induction tr) (auto simp: poll_answers_def split: action.splits)

lemma read_cb_no_polled: "Polled x \<notin> set (fst (read_cb H h ud ctx sys))"
  by (auto simp: read_cb_def Let_def split: option.splits)

lemma write_cb_no_polled: "Polled x \<notin> set (fst (write_cb H h ud ctx sys))"
  by (auto simp: write_cb_def Let_def split: option.splits)

lemma poke_wakers_no_polled: "Polled x \<notin> set (fst (poke_wakers h conn ev))"
  by (auto simp: poke_wakers_def Let_def split: option.splits)

lemma free_conn_data_no_polled: "Polled x \<notin> set (fst (free_conn_data h conn rc))"
  by (auto simp: free_conn_data_def split: option.splits)

lemma create_conn_data_no_polled: "Polled x \<notin> set (fst (create_conn_data h m rc nfd))"
  by (auto simp: create_conn_data_def split: option.splits)

lemma engine_calls_no_polled: "Polled x \<notin> set (fst (engine_calls H cs w))"
proof (induction H cs w rule: engine_calls.induct)
  case (1 H w)
  show ?case by simp
next
  case (2 H io ctx sys cs w)
  then show ?case
    by (auto simp: in_then_do read_cb_no_polled split_def split: option.splits)
next
  case (3 H io ctx sys cs w)
  then show ?case
    by (auto simp: in_then_do write_cb_no_polled split_def split: option.splits)
qed

lemma reap_task_no_polled: "Polled x \<notin> set (fst (reap_task w t rc))"
  by (auto simp: in_then_do reap_task_def Let_def free_conn_data_no_polled)

lemma accept_loop_no_polled: "Polled x \<notin> set (fst (accept_loop as w))"
proof (induction as arbitrary: w)
  case Nil
  show ?case by simp
next
  case (Cons a as)
  show ?case
    by (auto simp: in_then_do create_conn_data_no_polled create_io_def Cons.IH split_def)
qed

lemma read_signal_no_polled: "Polled x \<notin> set (fst (read_signal w))"
  by (auto simp: read_signal_def split: list.splits)

lemma events_loop_no_polled: "Polled x \<notin> set (fst (events_loop es w))"
proof (induction es arbitrary: w)
  case Nil
  show ?case by simp
next
  case (Cons e es)
  show ?case
    by (auto simp: in_then_do accept_loop_no_polled read_signal_no_polled poke_wakers_no_polled
                   Cons.IH
             split: epoll_key.splits)
qed

lemma try_addrs_no_polled: "Polled x \<notin> set (fst (try_addrs sock as))"
  by (induction as arbitrary: sock) (auto simp: split_def)

lemma listen_on_no_polled: "Polled x \<notin> set (fst (listen_on E))"
  using try_addrs_no_polled [of x "- 1" "gai_result E"]
  by (auto simp: listen_on_def split_def)

lemma register_signal_handler_no_polled: "Polled x \<notin> set (fst (register_signal_handler E))"
  by (auto simp: register_signal_handler_def)

lemma returns_then_do:
  "snd (then_do m f) = Inr b \<longleftrightarrow> (\<exists>a. snd m = Inr a \<and> snd (f a) = Inr b)"
  by (cases m) (auto simp: then_do_def split: sum.splits prod.splits)

lemma engine_calls_polls: "snd (engine_calls H cs w) = Inr w' \<Longrightarrow> polls w' = polls w"
proof (induction H cs w rule: engine_calls.induct)
  case (1 H w)
  then show ?case by simp
next
  case (2 H io ctx sys cs w)
  then show ?case
    by (auto simp: returns_then_do split_def split: option.splits)
next
  case (3 H io ctx sys cs w)
  then show ?case
    by (auto simp: returns_then_do split_def split: option.splits)
qed

lemma reap_task_polls: "snd (reap_task w t rc) = Inr w' \<Longrightarrow> polls w' = polls w"
  by (auto simp: reap_task_def Let_def returns_then_do split: if_splits)

lemma accept_loop_polls: "snd (accept_loop as w) = Inr w' \<Longrightarrow> polls w' = polls w"
proof (induction as arbitrary: w)
  case Nil
  then show ?case by simp
next
  case (Cons a as)
  from Cons.prems show ?case
    by (auto simp: returns_then_do split_def split: if_splits dest: Cons.IH)
qed

lemma read_signal_polls: "snd (read_signal w) = Inr w' \<Longrightarrow> polls w' = polls w"
  by (auto simp: read_signal_def split: list.splits if_splits)

lemma events_loop_polls: "snd (events_loop es w) = Inr w' \<Longrightarrow> polls w' = polls w"
proof (induction es arbitrary: w)
  case Nil
  then show ?case by simp
next
  case (Cons e es)
  from Cons.prems show ?case
    by (auto simp: returns_then_do split: epoll_key.splits
             dest!: Cons.IH accept_loop_polls read_signal_polls)
qed

lemma pump_consumes:
  "snd (pump H ps w) = Inr w' \<Longrightarrow>
   \<exists>pre e. ps = pre @ e # polls w' \<and> polled e = None \<and> (\<forall>x \<in> set pre. polled x \<noteq> None)
     \<and> poll_answers (fst (pump H ps w)) = map poll_answer (pre @ [e])"
proof (induction ps arbitrary: w)
  case Nil
  then show ?case by simp
next
  case (Cons e es)
  from Cons.prems obtain w1 where
    ec: "snd (engine_calls H (callbacks e) w) = Inr w1"
    by (cases "snd (engine_calls H (callbacks e) w)") (simp_all add: snd_then_do)
  have ea: "poll_answers (fst (engine_calls H (callbacks e) w)) = []"
    by (simp add: no_poll_answers engine_calls_no_polled)
  show ?case
  proof (cases "polled e")
    case None
    with Cons.prems ec have "w' = w1\<lparr>polls := es\<rparr>"
      by (simp add: snd_then_do)
    with None ec ea show ?thesis
      by (intro exI [of _ "[]"] exI [of _ e]) (simp add: fst_then_do poll_answer_def)
  next
    case (Some t)
    with Cons.prems ec obtain w2 where
      rt: "snd (reap_task w1 t (epoll_del_ret e)) = Inr w2"
      by (cases "snd (reap_task w1 t (epoll_del_ret e))") (simp_all add: snd_then_do)
    have ra: "poll_answers (fst (reap_task w1 t (epoll_del_ret e))) = []"
      by (simp add: no_poll_answers reap_task_no_polled)
    from Cons.prems ec Some rt have "snd (pump H es w2) = Inr w'"
      by (simp add: snd_then_do)
    from Cons.IH [OF this] obtain pre e' where
      ih: "es = pre @ e' # polls w'" "polled e' = None" "\<forall>x \<in> set pre. polled x \<noteq> None"
          "poll_answers (fst (pump H es w2)) = map poll_answer (pre @ [e'])"
      by blast
    from ih Some ec ea rt ra show ?thesis
      by (intro exI [of _ "e # pre"] exI [of _ e'])
         (simp add: fst_then_do poll_answer_def)
  qed
qed

lemma pump_answers:
  "\<exists>rest. poll_answers (fst (pump H ps w)) @ rest = map poll_answer ps"
proof (induction ps arbitrary: w)
  case Nil
  show ?case by simp
next
  case (Cons e es)
  have ea: "poll_answers (fst (engine_calls H (callbacks e) w)) = []"
    by (simp add: no_poll_answers engine_calls_no_polled)
  show ?case
  proof (cases "snd (engine_calls H (callbacks e) w)")
    case (Inl x)
    with ea show ?thesis by (simp add: fst_then_do)
  next
    case (Inr w1)
    show ?thesis
    proof (cases "polled e")
      case None
      then have "poll_answer e = None" by (simp add: poll_answer_def)
      with None Inr ea show ?thesis by (simp add: fst_then_do)
    next
      case (Some t)
      then have pa: "poll_answer e = Some (task t)" by (simp add: poll_answer_def)
      have ra: "poll_answers (fst (reap_task w1 t (epoll_del_ret e))) = []"
        by (simp add: no_poll_answers reap_task_no_polled)
      show ?thesis
      proof (cases "snd (reap_task w1 t (epoll_del_ret e))")
        case (Inl x)
        with Inr Some ea ra pa show ?thesis by (simp add: fst_then_do)
      next
        case r: (Inr w2)
        from Cons.IH [of w2] obtain rest where
          "poll_answers (fst (pump H es w2)) @ rest = map poll_answer es"
          by blast
        with Inr Some ea ra r pa show ?thesis by (auto simp: fst_then_do)
      qed
    qed
  qed
qed

lemma main_loop_answers:
  "\<exists>rest. poll_answers (fst (main_loop H wts w)) @ rest = map poll_answer (polls w)"
proof (induction wts arbitrary: w)
  case Nil
  show ?case
  proof (cases "snd (pump H (polls w) w)")
    case (Inl x)
    with pump_answers [of H "polls w" w] show ?thesis by (simp add: split_def)
  next
    case (Inr w1)
    from pump_consumes [OF Inr] show ?thesis
      using Inr by (auto simp: split_def)
  qed
next
  case (Cons wt wts)
  show ?case
  proof (cases "snd (pump H (polls w) w)")
    case (Inl x)
    with pump_answers [of H "polls w" w] show ?thesis by (simp add: split_def)
  next
    case (Inr w1)
    from pump_consumes [OF Inr] obtain pre e where
      pc: "polls w = pre @ e # polls w1"
          "poll_answers (fst (pump H (polls w) w)) = map poll_answer (pre @ [e])"
      by blast
    show ?thesis
    proof (cases wt)
      case WaitError
      with Inr pc show ?thesis by (simp add: split_def)
    next
      case (WaitReady evs)
      have ev: "poll_answers (fst (events_loop evs w1)) = []"
        by (simp add: no_poll_answers events_loop_no_polled)
      show ?thesis
      proof (cases "snd (events_loop evs w1)")
        case (Inl x)
        with Inr pc WaitReady ev show ?thesis
          by (cases x) (simp_all add: split_def)
      next
        case r: (Inr w2)
        from events_loop_polls [OF r] have p2: "polls w2 = polls w1" .
        from Cons.IH [of w2] p2 obtain rest where
          "poll_answers (fst (main_loop H wts w2)) @ rest = map poll_answer (polls w1)"
          by auto
        with Inr pc WaitReady ev r show ?thesis
          by (auto simp: split_def)
      qed
    qed
  qed
qed

lemma main_answers:
  "\<exists>rest. poll_answers (fst (main H R)) @ rest = map poll_answer (poll_replies R)"
proof -
  let ?E = "setup_replies R"
  have l: "poll_answers (fst (listen_on ?E)) = []"
    by (simp add: no_poll_answers listen_on_no_polled)
  have r: "poll_answers (fst (register_signal_handler ?E)) = []"
    by (simp add: no_poll_answers register_signal_handler_no_polled)
  let ?w = "\<lparr>listen_fd = snd (listen_on ?E), signal_fd = snd (register_signal_handler ?E),
             conns = Map.empty, io_userdata = Map.empty, task_userdata = Map.empty,
             polls = poll_replies R, accepts = accept_replies R, sigreads = signal_replies R\<rparr>"
  from main_loop_answers [of H "wait_replies R" ?w] obtain rest where
    "poll_answers (fst (main_loop H (wait_replies R) ?w)) @ rest = map poll_answer (poll_replies R)"
    by auto
  with l r show ?thesis
    by (auto simp: main_def Let_def split_def)
qed

text \<open>
  C3. In every run of \<open>main\<close>, under every environment and however the run ends:
  each call of \<open>epoll_wait\<close> is made when the last poll of the executor returned \<open>NULL\<close>
  and the program has only printed since (no call into the engine, no syscall); and the
  answers the polls report are the answers of the executor, in order, one consumed for
  each poll that returned. So at every wait the last answer of the executor was that it
  has no completed task. The inner loop consumes the answers one by one and is left only
  through a poll that returned \<open>NULL\<close>: whenever it returns, its last call is that poll,
  the answers it consumed are a sequence of completed tasks followed by one \<open>NULL\<close>, and the
  later answers are left for the next iteration.
\<close>

theorem polled_to_emptiness_before_wait:
  "wait_guarded False (fst (main H R))
   \<and> (\<exists>rest. poll_answers (fst (main H R)) @ rest = map poll_answer (poll_replies R))
   \<and> (snd (pump H ps w) = Inr w' \<longrightarrow>
        last (fst (pump H ps w)) = Polled None
        \<and> (\<exists>pre e. ps = pre @ e # polls w' \<and> polled e = None
              \<and> (\<forall>x \<in> set pre. polled x \<noteq> None)
              \<and> poll_answers (fst (pump H ps w)) = map poll_answer (pre @ [e])))"
proof (intro conjI impI)
  show "wait_guarded False (fst (main H R))"
    using listen_on_no_wait [of "setup_replies R"]
          register_signal_handler_no_wait [of "setup_replies R"]
    by (auto simp: main_def Let_def split_def wait_guarded_append no_wait_guarded
                   main_loop_guarded quiescent_def)
  show "\<exists>rest. poll_answers (fst (main H R)) @ rest = map poll_answer (poll_replies R)"
    by (rule main_answers)
  assume r: "snd (pump H ps w) = Inr w'"
  then show "last (fst (pump H ps w)) = Polled None"
    by (rule pump_ends_with_null)
  from r show "\<exists>pre e. ps = pre @ e # polls w' \<and> polled e = None
              \<and> (\<forall>x \<in> set pre. polled x \<noteq> None)
              \<and> poll_answers (fst (pump H ps w)) = map poll_answer (pre @ [e])"
    by (rule pump_consumes)
qed

theorem polled_to_emptiness_before_wait_witness:
  "wait_guarded False (fst (main example_hyper_h example_run))
   \<and> length (filter (\<lambda>a. a = EpollWait) (fst (main example_hyper_h example_run))) = 3
   \<and> poll_answers (fst (main example_hyper_h example_run)) = [None, None, Some 300, None]
   \<and> map poll_answer (poll_replies example_run) = [None, None, Some 300, None]
   \<and> last (fst (pump example_hyper_h
                  [\<lparr>callbacks = [], polled = Some \<lparr>task = 300, task_type = HYPER_TASK_OTHER\<rparr>,
                    epoll_del_ret = 0\<rparr>, idle_poll, idle_poll]
                  example_world)) = Polled None
   \<and> poll_answers (fst (pump example_hyper_h
                  [\<lparr>callbacks = [], polled = Some \<lparr>task = 300, task_type = HYPER_TASK_OTHER\<rparr>,
                    epoll_del_ret = 0\<rparr>, idle_poll, idle_poll]
                  example_world)) = [Some 300, None]"
proof -
  have 1: "length (filter (\<lambda>a. a = EpollWait) (fst (main example_hyper_h example_run))) = 3"
    by code_simp
  have 2: "snd (pump example_hyper_h
                  [\<lparr>callbacks = [], polled = Some \<lparr>task = 300, task_type = HYPER_TASK_OTHER\<rparr>,
                    epoll_del_ret = 0\<rparr>, idle_poll, idle_poll]
                  example_world) = Inr (example_world\<lparr>polls := [idle_poll]\<rparr>)"
    by (simp add: idle_poll_def reap_task_def hyper_task_userdata_def example_world_def)
  have 3: "poll_answers (fst (main example_hyper_h example_run)) = [None, None, Some 300, None]"
    by code_simp
  have 4: "map poll_answer (poll_replies example_run) = [None, None, Some 300, None]"
    by code_simp
  have 5: "poll_answers (fst (pump example_hyper_h
                  [\<lparr>callbacks = [], polled = Some \<lparr>task = 300, task_type = HYPER_TASK_OTHER\<rparr>,
                    epoll_del_ret = 0\<rparr>, idle_poll, idle_poll]
                  example_world)) = [Some 300, None]"
    by code_simp
  note t = polled_to_emptiness_before_wait [of example_hyper_h example_run
         "[\<lparr>callbacks = [], polled = Some \<lparr>task = 300, task_type = HYPER_TASK_OTHER\<rparr>,
            epoll_del_ret = 0\<rparr>, idle_poll, idle_poll]" example_world
         "example_world\<lparr>polls := [idle_poll]\<rparr>"]
  from t have a: "wait_guarded False (fst (main example_hyper_h example_run))"
    by (rule conjunct1)
  from t 2 have b: "last (fst (pump example_hyper_h
                  [\<lparr>callbacks = [], polled = Some \<lparr>task = 300, task_type = HYPER_TASK_OTHER\<rparr>,
                    epoll_del_ret = 0\<rparr>, idle_poll, idle_poll]
                  example_world)) = Polled None"
    by blast
  from a b 1 3 4 5 show ?thesis by blast
qed

section \<open>Exit status and setup failures\<close>

lemma exit_then_do:
  "snd (then_do m f) = Inl (Exit n)
     \<longleftrightarrow> snd m = Inl (Exit n) \<or> (\<exists>a. snd m = Inr a \<and> snd (f a) = Inl (Exit n))"
  by (cases m) (auto simp: then_do_def split: sum.splits prod.splits)

lemma read_cb_no_exit: "snd (read_cb H h ud ctx sys) \<noteq> Inl (Exit n)"
  by (auto simp: read_cb_def Let_def split: option.splits)

lemma write_cb_no_exit: "snd (write_cb H h ud ctx sys) \<noteq> Inl (Exit n)"
  by (auto simp: write_cb_def Let_def split: option.splits)

lemma poke_wakers_no_exit: "snd (poke_wakers h conn ev) \<noteq> Inl (Exit n)"
  by (auto simp: poke_wakers_def Let_def split_def split: option.splits)

lemma free_conn_data_no_exit: "snd (free_conn_data h conn rc) \<noteq> Inl (Exit n)"
  by (auto simp: free_conn_data_def split: option.splits)

lemma create_conn_data_no_exit: "snd (create_conn_data h m rc nfd) \<noteq> Inl (Exit n)"
  by (auto simp: create_conn_data_def split: option.splits)

lemma engine_calls_no_exit: "snd (engine_calls H cs w) \<noteq> Inl (Exit n)"
proof (induction H cs w rule: engine_calls.induct)
  case (1 H w)
  show ?case by simp
next
  case (2 H io ctx sys cs w)
  then show ?case
    by (auto simp: exit_then_do read_cb_no_exit split_def split: option.splits)
next
  case (3 H io ctx sys cs w)
  then show ?case
    by (auto simp: exit_then_do write_cb_no_exit split_def split: option.splits)
qed

lemma reap_task_no_exit: "snd (reap_task w t rc) \<noteq> Inl (Exit n)"
  by (auto simp: reap_task_def Let_def exit_then_do free_conn_data_no_exit)

lemma pump_no_exit: "snd (pump H ps w) \<noteq> Inl (Exit n)"
proof (induction ps arbitrary: w)
  case Nil
  show ?case by simp
next
  case (Cons e es)
  show ?case
    by (auto simp: exit_then_do engine_calls_no_exit reap_task_no_exit Cons.IH
             split: option.splits)
qed

lemma accept_loop_exit: "snd (accept_loop as w) = Inl (Exit n) \<Longrightarrow> n = 1"
proof (induction as arbitrary: w)
  case Nil
  then show ?case by simp
next
  case (Cons a as)
  from Cons.prems show ?case
    by (auto simp: exit_then_do create_conn_data_no_exit split_def
             split: if_splits dest: Cons.IH)
qed

lemma read_signal_exit: "snd (read_signal w) = Inl (Exit n) \<Longrightarrow> n = 1"
  by (auto simp: read_signal_def split: list.splits if_splits)

lemma events_loop_exit: "snd (events_loop es w) = Inl (Exit n) \<Longrightarrow> n = 1"
proof (induction es arbitrary: w)
  case Nil
  then show ?case by simp
next
  case (Cons e es)
  from Cons.prems show ?case
    by (auto simp: exit_then_do poke_wakers_no_exit
             split: epoll_key.splits
             dest: Cons.IH accept_loop_exit read_signal_exit)
qed

lemma main_loop_exit: "snd (main_loop H wts w) = Exit n \<Longrightarrow> n = 1"
proof (induction wts arbitrary: w)
  case Nil
  then show ?case
    using pump_no_exit [of H "polls w" w n]
    by (auto simp: split_def split: sum.splits)
next
  case (Cons wt wts)
  from Cons.prems show ?case
    using pump_no_exit [of H "polls w" w n]
    by (auto simp: split_def split: sum.splits wait_env.splits halt.splits
             dest: Cons.IH events_loop_exit)
qed

lemma main_exit: "snd (main H R) = Exit n \<Longrightarrow> n = 1"
  by (auto simp: main_def Let_def split_def split: if_splits dest: main_loop_exit)

lemma try_addrs_all_fail:
  "sock < 0 \<Longrightarrow> \<forall>a \<in> set as. socket_ret a < 0 \<or> bind_ret a \<noteq> 0
     \<Longrightarrow> snd (try_addrs sock as) < 0"
  by (induction as arbitrary: sock) (auto simp: split_def)

lemma diagnostics_simps [simp]:
  "diagnostics [] = []"
  "diagnostics (tr @ tr') = diagnostics tr @ diagnostics tr'"
  "diagnostics (Perror s # tr) = Perror s # diagnostics tr"
  "diagnostics (Fprintf s # tr) = Fprintf s # diagnostics tr"
  "diagnostics (Printf s # tr) = diagnostics tr"
  "diagnostics (Getaddrinfo # tr) = diagnostics tr"
  "diagnostics (Freeaddrinfo # tr) = diagnostics tr"
  "diagnostics (Socket # tr) = diagnostics tr"
  "diagnostics (Setsockopt n # tr) = diagnostics tr"
  "diagnostics (Bind n # tr) = diagnostics tr"
  "diagnostics (Close n # tr) = diagnostics tr"
  by (simp_all add: diagnostics_def is_diagnostic_def)

lemma try_addrs_diagnostics:
  "\<forall>a \<in> set as. socket_ret a < 0 \<or> bind_ret a \<noteq> 0 \<Longrightarrow>
   diagnostics (fst (try_addrs sock as))
     = concat (map (\<lambda>a. if socket_ret a < 0 then [Perror ''socket'']
                         else if setsockopt_ret a < 0 then [Perror ''setsockopt''] else []) as)"
  by (induction as arbitrary: sock) (auto simp: split_def)

lemma try_addrs_socket_count:
  "\<forall>a \<in> set as. socket_ret a < 0 \<or> bind_ret a \<noteq> 0 \<Longrightarrow>
   length (filter (\<lambda>x. x = Perror ''socket'') (fst (try_addrs sock as)))
     = length (filter (\<lambda>a. socket_ret a < 0) as)"
  by (induction as arbitrary: sock) (auto simp: split_def)

lemma no_diagnostics:
  "\<forall>a \<in> set as. 0 \<le> socket_ret a \<and> 0 \<le> setsockopt_ret a \<Longrightarrow>
   concat (map (\<lambda>a. if socket_ret a < 0 then [Perror ''socket'']
                     else if setsockopt_ret a < 0 then [Perror ''setsockopt''] else []) as) = []"
  by (induction as) auto

text \<open>
  C7, amended. A failure of address resolution makes \<open>main\<close> print the resolver's
  diagnostic and return 1. When \<open>socket\<close> or \<open>bind\<close> fails for every address, \<open>main\<close>
  returns 1, and the diagnostics it has printed are, in the order of the addresses, one
  \<open>socket\<close> diagnostic for each failed \<open>socket\<close> and one \<open>setsockopt\<close> warning for each
  failed \<open>setsockopt\<close>, and nothing else: as many \<open>socket\<close> diagnostics as failed
  \<open>socket\<close> calls, and none for a failed \<open>bind\<close> (no diagnostic at all when only \<open>bind\<close>
  failed). A failure of \<open>listen\<close> makes \<open>main\<close> print a diagnostic and return 1, and so
  does a failure of \<open>epoll_create1\<close>. Whenever \<open>main\<close> returns, it returns 1: the status
  0 is never produced, and the shutdown on a signal returns 1.
\<close>

theorem setup_failures_exit_1:
  "(gai_rc (setup_replies R) \<noteq> 0 \<longrightarrow>
      main H R = ([Printf ''listening on port %s on %s...'', Getaddrinfo,
                   Fprintf ''getaddrinfo: %s''], Exit 1))
 \<and> (gai_rc (setup_replies R) = 0
      \<and> (\<forall>a \<in> set (gai_result (setup_replies R)). socket_ret a < 0 \<or> bind_ret a \<noteq> 0) \<longrightarrow>
      snd (main H R) = Exit 1
      \<and> diagnostics (fst (main H R))
          = concat (map (\<lambda>a. if socket_ret a < 0 then [Perror ''socket'']
                              else if setsockopt_ret a < 0 then [Perror ''setsockopt''] else [])
                        (gai_result (setup_replies R)))
      \<and> length (filter (\<lambda>x. x = Perror ''socket'') (fst (main H R)))
          = length (filter (\<lambda>a. socket_ret a < 0) (gai_result (setup_replies R)))
      \<and> ((\<forall>a \<in> set (gai_result (setup_replies R)). 0 \<le> socket_ret a \<and> 0 \<le> setsockopt_ret a) \<longrightarrow>
           diagnostics (fst (main H R)) = []))
 \<and> (gai_rc (setup_replies R) = 0
      \<and> 0 \<le> snd (try_addrs (- 1) (gai_result (setup_replies R)))
      \<and> fcntl_nonblock_ret (setup_replies R) = 0 \<and> fcntl_cloexec_ret (setup_replies R) = 0
      \<and> listen_ret (setup_replies R) < 0 \<longrightarrow>
      snd (main H R) = Exit 1 \<and> last (fst (main H R)) = Perror ''listen'')
 \<and> (epoll_create_ret (setup_replies R) < 0 \<longrightarrow>
      snd (main H R) = Exit 1
      \<and> (0 \<le> snd (listen_on (setup_replies R))
           \<and> 0 \<le> snd (register_signal_handler (setup_replies R)) \<longrightarrow>
           last (fst (main H R)) = Perror ''epoll''))
 \<and> (snd (main H R) = Exit n \<longrightarrow> n = 1)"
proof (intro conjI impI)
  assume "gai_rc (setup_replies R) \<noteq> 0"
  then show "main H R = ([Printf ''listening on port %s on %s...'', Getaddrinfo,
                          Fprintf ''getaddrinfo: %s''], Exit 1)"
    by (simp add: main_def Let_def listen_on_def)
next
  assume a: "gai_rc (setup_replies R) = 0
      \<and> (\<forall>a \<in> set (gai_result (setup_replies R)). socket_ret a < 0 \<or> bind_ret a \<noteq> 0)"
  then have neg: "snd (try_addrs (- 1) (gai_result (setup_replies R))) < 0"
    by (simp add: try_addrs_all_fail)
  with a have m: "main H R
      = ([Printf ''listening on port %s on %s...'', Getaddrinfo]
         @ fst (try_addrs (- 1) (gai_result (setup_replies R))) @ [Freeaddrinfo], Exit 1)"
    by (simp add: main_def Let_def listen_on_def split_def)
  from m show "snd (main H R) = Exit 1" by simp
  from a have d: "diagnostics (fst (try_addrs (- 1) (gai_result (setup_replies R))))
          = concat (map (\<lambda>a. if socket_ret a < 0 then [Perror ''socket'']
                              else if setsockopt_ret a < 0 then [Perror ''setsockopt''] else [])
                        (gai_result (setup_replies R)))"
    by (simp add: try_addrs_diagnostics)
  with m show dm: "diagnostics (fst (main H R))
          = concat (map (\<lambda>a. if socket_ret a < 0 then [Perror ''socket'']
                              else if setsockopt_ret a < 0 then [Perror ''setsockopt''] else [])
                        (gai_result (setup_replies R)))"
    by (simp add: diagnostics_def is_diagnostic_def)
  from a m show "length (filter (\<lambda>x. x = Perror ''socket'') (fst (main H R)))
          = length (filter (\<lambda>a. socket_ret a < 0) (gai_result (setup_replies R)))"
    by (simp add: try_addrs_socket_count)
  assume "\<forall>a \<in> set (gai_result (setup_replies R)). 0 \<le> socket_ret a \<and> 0 \<le> setsockopt_ret a"
  with dm show "diagnostics (fst (main H R)) = []"
    by (simp add: no_diagnostics)
next
  assume "gai_rc (setup_replies R) = 0
      \<and> 0 \<le> snd (try_addrs (- 1) (gai_result (setup_replies R)))
      \<and> fcntl_nonblock_ret (setup_replies R) = 0 \<and> fcntl_cloexec_ret (setup_replies R) = 0
      \<and> listen_ret (setup_replies R) < 0"
  then show "snd (main H R) = Exit 1" and "last (fst (main H R)) = Perror ''listen''"
    by (simp_all add: main_def Let_def listen_on_def split_def)
next
  assume e: "epoll_create_ret (setup_replies R) < 0"
  then show "snd (main H R) = Exit 1"
    by (simp add: main_def Let_def split_def)
  assume "0 \<le> snd (listen_on (setup_replies R))
           \<and> 0 \<le> snd (register_signal_handler (setup_replies R))"
  with e show "last (fst (main H R)) = Perror ''epoll''"
    by (simp add: main_def Let_def split_def)
next
  assume "snd (main H R) = Exit n"
  then show "n = 1" by (rule main_exit)
qed

theorem setup_failures_exit_1_witness:
  "snd (main example_hyper_h
          \<lparr>setup_replies = example_setup\<lparr>gai_rc := - 2\<rparr>,
           wait_replies = [], poll_replies = [], accept_replies = [], signal_replies = []\<rparr>)
     = Exit 1
   \<and> diagnostics (fst (main example_hyper_h
          \<lparr>setup_replies =
             example_setup\<lparr>gai_result :=
               [\<lparr>socket_ret = - 1, setsockopt_ret = 0, bind_ret = 0\<rparr>,
                \<lparr>socket_ret = 3, setsockopt_ret = 0, bind_ret = - 1\<rparr>,
                \<lparr>socket_ret = - 1, setsockopt_ret = 0, bind_ret = 0\<rparr>]\<rparr>,
           wait_replies = [], poll_replies = [], accept_replies = [], signal_replies = []\<rparr>))
     = [Perror ''socket'', Perror ''socket'']
   \<and> diagnostics (fst (main example_hyper_h
          \<lparr>setup_replies =
             example_setup\<lparr>gai_result := [\<lparr>socket_ret = 3, setsockopt_ret = 0, bind_ret = - 1\<rparr>]\<rparr>,
           wait_replies = [], poll_replies = [], accept_replies = [], signal_replies = []\<rparr>))
     = []
   \<and> last (fst (main example_hyper_h
          \<lparr>setup_replies = example_setup\<lparr>listen_ret := - 1\<rparr>,
           wait_replies = [], poll_replies = [], accept_replies = [], signal_replies = []\<rparr>))
     = Perror ''listen''
   \<and> last (fst (main example_hyper_h
          \<lparr>setup_replies = example_setup\<lparr>epoll_create_ret := - 1\<rparr>,
           wait_replies = [], poll_replies = [], accept_replies = [], signal_replies = []\<rparr>))
     = Perror ''epoll''
   \<and> snd (main example_hyper_h example_run) = Exit 1"
proof -
  have sd: "snd (main example_hyper_h example_run) = Exit 1"
    by code_simp
  from sd
    setup_failures_exit_1 [of "\<lparr>setup_replies = example_setup\<lparr>gai_rc := - 2\<rparr>,
           wait_replies = [], poll_replies = [], accept_replies = [], signal_replies = []\<rparr>"
       example_hyper_h 1]
    setup_failures_exit_1 [of "\<lparr>setup_replies =
             example_setup\<lparr>gai_result :=
               [\<lparr>socket_ret = - 1, setsockopt_ret = 0, bind_ret = 0\<rparr>,
                \<lparr>socket_ret = 3, setsockopt_ret = 0, bind_ret = - 1\<rparr>,
                \<lparr>socket_ret = - 1, setsockopt_ret = 0, bind_ret = 0\<rparr>]\<rparr>,
           wait_replies = [], poll_replies = [], accept_replies = [], signal_replies = []\<rparr>"
       example_hyper_h 1]
    setup_failures_exit_1 [of "\<lparr>setup_replies =
             example_setup\<lparr>gai_result := [\<lparr>socket_ret = 3, setsockopt_ret = 0, bind_ret = - 1\<rparr>]\<rparr>,
           wait_replies = [], poll_replies = [], accept_replies = [], signal_replies = []\<rparr>"
       example_hyper_h 1]
    setup_failures_exit_1 [of "\<lparr>setup_replies = example_setup\<lparr>listen_ret := - 1\<rparr>,
           wait_replies = [], poll_replies = [], accept_replies = [], signal_replies = []\<rparr>"
       example_hyper_h 1]
    setup_failures_exit_1 [of "\<lparr>setup_replies = example_setup\<lparr>epoll_create_ret := - 1\<rparr>,
           wait_replies = [], poll_replies = [], accept_replies = [], signal_replies = []\<rparr>"
       example_hyper_h 1]
    setup_failures_exit_1 [of example_run example_hyper_h 1]
  show ?thesis
    by (simp add: example_setup_def listen_on_def register_signal_handler_def)
qed

text \<open>
  The claim C7 as stated fails on two inputs. When \<open>bind\<close> fails for the only address,
  \<open>main\<close> returns 1 and has printed no diagnostic. When \<open>signalfd\<close> fails,
  \<open>register_signal_handler\<close> prints a diagnostic and returns 1, which \<open>main\<close> does not
  take for a failure (it tests \<open>signal_fd < 0\<close>): the program registers descriptor 1 with
  the notifier, enters its loop and waits.
\<close>

theorem setup_failure_counterexample:
  "main example_hyper_h
     \<lparr>setup_replies =
        example_setup\<lparr>gai_result := [\<lparr>socket_ret = 3, setsockopt_ret = 0, bind_ret = - 1\<rparr>]\<rparr>,
      wait_replies = [], poll_replies = [], accept_replies = [], signal_replies = []\<rparr>
     = ([Printf ''listening on port %s on %s...'', Getaddrinfo, Socket, Setsockopt 3, Bind 3,
         Close 3, Freeaddrinfo],
        Exit 1)
   \<and> main example_hyper_h
     \<lparr>setup_replies = example_setup\<lparr>signalfd_ret := - 1\<rparr>,
      wait_replies = [], poll_replies = [idle_poll], accept_replies = [], signal_replies = []\<rparr>
     = ([Printf ''listening on port %s on %s...'', Getaddrinfo, Socket, Setsockopt 3, Bind 3,
         Freeaddrinfo, Fcntl 3 ''O_NONBLOCK'', Fcntl 3 ''FD_CLOEXEC'', Listen 3, Signalfd,
         Perror ''signalfd'', EpollCreate, EpollCtlAdd 3 KeyListen, EpollCtlAdd 1 KeySignal,
         Printf ''http handshake (hyper v%s) ...'', ExecutorNew, OptionsNew, ExecutorPoll,
         Polled None, Printf ''Processed all tasks - polling for events'', EpollWait],
        Starved)"
  by code_simp

section \<open>The accept loop\<close>

lemma create_conn_data_returns:
  "rc < 0 \<or> m \<noteq> None \<Longrightarrow>
   \<exists>conn h'. snd (create_conn_data h m rc nfd) = Inr (conn, h')
     \<and> (rc < 0 \<longrightarrow> conn = None)
     \<and> (\<forall>x \<in> set (fst (create_conn_data h m rc nfd)).
           (\<forall>n. x \<noteq> Accept n) \<and> x \<noteq> Perror ''accept'')"
  by (auto simp: create_conn_data_def split: option.splits)

lemma accept_iteration:
  assumes "0 \<le> new_fd a" "conn_nonblock_ret a = 0" "conn_cloexec_ret a = 0"
    "epoll_add_ret a < 0 \<or> malloc_ret a \<noteq> None"
  shows "\<exists>t w1. accept_loop (a # as) w = (t @ fst (accept_loop as w1), snd (accept_loop as w1))
           \<and> listen_fd w1 = listen_fd w
           \<and> length (filter (\<lambda>x. x = Accept (listen_fd w)) t) = 1
           \<and> Perror ''accept'' \<notin> set t"
proof -
  from assms(4) create_conn_data_returns [of "epoll_add_ret a" "malloc_ret a" "conns w" "new_fd a"]
  obtain conn h' where
    c: "snd (create_conn_data (conns w) (malloc_ret a) (epoll_add_ret a) (new_fd a)) = Inr (conn, h')"
    and n: "\<forall>x \<in> set (fst (create_conn_data (conns w) (malloc_ret a) (epoll_add_ret a) (new_fd a))).
           (\<forall>n. x \<noteq> Accept n) \<and> x \<noteq> Perror ''accept''"
    by blast
  let ?w1 = "w\<lparr>conns := h', io_userdata := (io_userdata w)(io_new a \<mapsto> conn),
                task_userdata := (task_userdata w)(serverconn a \<mapsto> conn)\<rparr>"
  let ?t = "[Accept (listen_fd w), Getnameinfo]
            @ (if getnameinfo_ret a < 0
               then [Perror ''getnameinfo'', Printf ''New incoming connection from (unknown)'']
               else [Printf ''New incoming connection from (%s:%s)''])
            @ [Fcntl (new_fd a) ''O_NONBLOCK'', Fcntl (new_fd a) ''FD_CLOEXEC'']
            @ fst (create_conn_data (conns w) (malloc_ret a) (epoll_add_ret a) (new_fd a))
            @ create_io (io_new a) conn
            @ [ServiceNew, ServeConnection (io_new a) (serverconn a),
               TaskSetUserdata (serverconn a) conn, ExecutorPush (serverconn a)]"
  have 1: "accept_loop (a # as) w = (?t @ fst (accept_loop as ?w1), snd (accept_loop as ?w1))"
    using assms(1-3) c
    by (simp add: fst_then_do snd_then_do prod_eq_iff)
  have 2: "length (filter (\<lambda>x. x = Accept (listen_fd w)) ?t) = 1"
    using n by (simp add: create_io_def filter_empty_conv)
  have 3: "Perror ''accept'' \<notin> set ?t"
    using n by (auto simp: create_io_def)
  from 1 2 3 show ?thesis
    by (intro exI [of _ ?t] exI [of _ ?w1]) simp
qed

lemma accept_loop_nonempty: "fst (accept_loop as w) \<noteq> []"
  by (cases as) (auto simp: fst_then_do)

lemma accept_drain:
  assumes "new_fd a < 0"
  shows "list_all (\<lambda>a. 0 \<le> new_fd a \<and> conn_nonblock_ret a = 0 \<and> conn_cloexec_ret a = 0
                     \<and> (epoll_add_ret a < 0 \<or> malloc_ret a \<noteq> None)) pre \<Longrightarrow>
         \<exists>w'. snd (accept_loop (pre @ a # rest) w) = Inr w' \<and> accepts w' = rest
           \<and> length (filter (\<lambda>x. x = Accept (listen_fd w)) (fst (accept_loop (pre @ a # rest) w)))
               = length pre + 1
           \<and> (accept_errno a \<noteq> EAGAIN \<longrightarrow>
                 last (fst (accept_loop (pre @ a # rest) w)) = Perror ''accept'')
           \<and> (accept_errno a = EAGAIN \<longrightarrow>
                 Perror ''accept'' \<notin> set (fst (accept_loop (pre @ a # rest) w)))"
proof (induction pre arbitrary: w)
  case Nil
  from assms show ?case by simp
next
  case (Cons b pre)
  from Cons.prems have b: "0 \<le> new_fd b" "conn_nonblock_ret b = 0" "conn_cloexec_ret b = 0"
    "epoll_add_ret b < 0 \<or> malloc_ret b \<noteq> None"
    and pre: "list_all (\<lambda>a. 0 \<le> new_fd a \<and> conn_nonblock_ret a = 0 \<and> conn_cloexec_ret a = 0
                     \<and> (epoll_add_ret a < 0 \<or> malloc_ret a \<noteq> None)) pre"
    by simp_all
  from accept_iteration [OF b, of "pre @ a # rest" w] obtain t w1 where
    it: "accept_loop (b # pre @ a # rest) w
           = (t @ fst (accept_loop (pre @ a # rest) w1), snd (accept_loop (pre @ a # rest) w1))"
    and l: "listen_fd w1 = listen_fd w"
    and cnt: "length (filter (\<lambda>x. x = Accept (listen_fd w)) t) = 1"
    and np: "Perror ''accept'' \<notin> set t"
    by blast
  from Cons.IH [OF pre, of w1] obtain w' where
    ih: "snd (accept_loop (pre @ a # rest) w1) = Inr w'" "accepts w' = rest"
        "length (filter (\<lambda>x. x = Accept (listen_fd w1)) (fst (accept_loop (pre @ a # rest) w1)))
           = length pre + 1"
        "accept_errno a \<noteq> EAGAIN \<longrightarrow>
           last (fst (accept_loop (pre @ a # rest) w1)) = Perror ''accept''"
        "accept_errno a = EAGAIN \<longrightarrow>
           Perror ''accept'' \<notin> set (fst (accept_loop (pre @ a # rest) w1))"
    by blast
  from it l cnt np ih accept_loop_nonempty [of "pre @ a # rest" w1] show ?case
    by simp
qed

text \<open>
  C8, amended. On a readable event of the listener the program calls \<open>accept\<close>
  repeatedly, setting up each accepted connection, and the loop ends at the first call of
  \<open>accept\<close> that fails, whatever its \<open>errno\<close> (here: as long as both \<open>fcntl\<close> calls on
  each accepted descriptor succeed and the record can be allocated or its registration
  fails). With \<open>pre\<close> the accepted connections and \<open>a\<close> the failed call: \<open>accept\<close> is called
  \<open>length pre + 1\<close> times and the later answers are left unconsumed; an \<open>errno\<close> other than
  \<open>EAGAIN\<close> is logged as the last call of the loop, \<open>EAGAIN\<close> is not logged; in both cases
  the loop returns to the event loop, which goes on with the remaining events.
\<close>

theorem accept_drain_ends_at_first_failure:
  assumes "list_all (\<lambda>a. 0 \<le> new_fd a \<and> conn_nonblock_ret a = 0 \<and> conn_cloexec_ret a = 0
                       \<and> (epoll_add_ret a < 0 \<or> malloc_ret a \<noteq> None)) pre"
    and "new_fd a < 0"
  shows "\<exists>w'. snd (accept_loop (pre @ a # rest) w) = Inr w' \<and> accepts w' = rest
           \<and> length (filter (\<lambda>x. x = Accept (listen_fd w)) (fst (accept_loop (pre @ a # rest) w)))
               = length pre + 1
           \<and> (accept_errno a \<noteq> EAGAIN \<longrightarrow>
                 last (fst (accept_loop (pre @ a # rest) w)) = Perror ''accept'')
           \<and> (accept_errno a = EAGAIN \<longrightarrow>
                 Perror ''accept'' \<notin> set (fst (accept_loop (pre @ a # rest) w)))
           \<and> (data_ptr e = KeyListen \<and> accepts w = pre @ a # rest \<longrightarrow>
                 events_loop (e # es) w
                   = (fst (accept_loop (pre @ a # rest) w) @ fst (events_loop es w'),
                      snd (events_loop es w')))"
proof -
  from accept_drain [OF assms(2) assms(1), of rest w] obtain w' where
    d: "snd (accept_loop (pre @ a # rest) w) = Inr w'" "accepts w' = rest"
       "length (filter (\<lambda>x. x = Accept (listen_fd w)) (fst (accept_loop (pre @ a # rest) w)))
          = length pre + 1"
       "accept_errno a \<noteq> EAGAIN \<longrightarrow>
          last (fst (accept_loop (pre @ a # rest) w)) = Perror ''accept''"
       "accept_errno a = EAGAIN \<longrightarrow>
          Perror ''accept'' \<notin> set (fst (accept_loop (pre @ a # rest) w))"
    by blast
  have "data_ptr e = KeyListen \<and> accepts w = pre @ a # rest \<longrightarrow>
          events_loop (e # es) w
            = (fst (accept_loop (pre @ a # rest) w) @ fst (events_loop es w'),
               snd (events_loop es w'))"
    using d(1) by (simp add: fst_then_do snd_then_do prod_eq_iff)
  with d show ?thesis by blast
qed

theorem accept_drain_ends_at_first_failure_witness:
  "fst (accept_loop [example_accept, accept_again\<lparr>accept_errno := 103\<rparr>, example_accept]
          example_world)
     = [Accept 3, Getnameinfo, Printf ''New incoming connection from (%s:%s)'',
        Fcntl 6 ''O_NONBLOCK'', Fcntl 6 ''FD_CLOEXEC'', Malloc (Some 100),
        EpollCtlAdd 6 (KeyConn (Some 100)), IoNew 200, IoSetUserdata 200 (Some 100),
        IoSetRead 200, IoSetWrite 200, ServiceNew, ServeConnection 200 300,
        TaskSetUserdata 300 (Some 100), ExecutorPush 300, Accept 3, Perror ''accept'']
   \<and> (\<exists>w'. snd (accept_loop [example_accept, accept_again\<lparr>accept_errno := 103\<rparr>, example_accept]
                   example_world) = Inr w'
          \<and> accepts w' = [example_accept])"
proof -
  have 1: "list_all (\<lambda>a. 0 \<le> new_fd a \<and> conn_nonblock_ret a = 0 \<and> conn_cloexec_ret a = 0
                       \<and> (epoll_add_ret a < 0 \<or> malloc_ret a \<noteq> None)) [example_accept]"
    by (simp add: example_accept_def)
  have 2: "new_fd (accept_again\<lparr>accept_errno := 103\<rparr>) < 0"
    by (simp add: accept_again_def)
  have 3: "fst (accept_loop [example_accept, accept_again\<lparr>accept_errno := 103\<rparr>, example_accept]
          example_world)
     = [Accept 3, Getnameinfo, Printf ''New incoming connection from (%s:%s)'',
        Fcntl 6 ''O_NONBLOCK'', Fcntl 6 ''FD_CLOEXEC'', Malloc (Some 100),
        EpollCtlAdd 6 (KeyConn (Some 100)), IoNew 200, IoSetUserdata 200 (Some 100),
        IoSetRead 200, IoSetWrite 200, ServiceNew, ServeConnection 200 300,
        TaskSetUserdata 300 (Some 100), ExecutorPush 300, Accept 3, Perror ''accept'']"
    by code_simp
  from accept_drain_ends_at_first_failure [OF 1 2, where rest = "[example_accept]"
         and w = example_world and e = "\<lparr>events = 1, data_ptr = KeyListen\<rparr>" and es = "[]"]
  obtain w' where
    "snd (accept_loop ([example_accept] @ accept_again\<lparr>accept_errno := 103\<rparr> # [example_accept])
            example_world) = Inr w'"
    "accepts w' = [example_accept]"
    by blast
  then have "\<exists>w'. snd (accept_loop [example_accept, accept_again\<lparr>accept_errno := 103\<rparr>,
                                    example_accept] example_world) = Inr w'
               \<and> accepts w' = [example_accept]"
    by (simp only: append.simps) blast
  with 3 show ?thesis by blast
qed

text \<open>
  The claim C8 as stated says that the loop ends exactly on the would-block condition.
  Here the first \<open>accept\<close> fails with \<open>errno = 103\<close> (\<open>ECONNABORTED\<close>) while another
  connection is waiting: the loop ends after this one call, logs it, and leaves the waiting
  connection unaccepted.
\<close>

theorem accept_drain_counterexample:
  "accept_errno (accept_again\<lparr>accept_errno := 103\<rparr>) \<noteq> EAGAIN
   \<and> accept_loop [accept_again\<lparr>accept_errno := 103\<rparr>, example_accept] example_world
       = ([Accept 3, Perror ''accept''], Inr (example_world\<lparr>accepts := [example_accept]\<rparr>))"
  by (simp add: accept_again_def EAGAIN_def example_world_def)

section \<open>Shutdown on a signal\<close>

text \<open>
  C9. When the event loop reaches an event of the signal descriptor and the \<open>read\<close> of one
  signal-info record succeeds, it has made exactly that one \<open>read\<close>. For \<open>SIGINT\<close>,
  \<open>SIGTERM\<close> and \<open>SIGQUIT\<close> it prints one line naming the signal and jumps to \<open>EXIT\<close>,
  leaving the remaining events; the loop of \<open>main\<close> then makes exactly two more calls, the
  release of the server-connection options and then of the executor, and returns 1: no
  descriptor is closed and no record destroyed. For any other signal it prints a
  diagnostic and goes on with the remaining events.
\<close>

theorem signal_shutdown:
  assumes "sigreads w = s # ss" and "sig_read_ret s = sizeof_signalfd_siginfo"
    and "data_ptr e = KeySignal"
  shows "(ssi_signo s = SIGINT \<longrightarrow>
            events_loop (e # es) w
              = ([SysRead (signal_fd w), Printf ''Caught SIGINT... exiting''], Inl GotoExit))
       \<and> (ssi_signo s = SIGTERM \<longrightarrow>
            events_loop (e # es) w
              = ([SysRead (signal_fd w), Printf ''Caught SIGTERM... exiting''], Inl GotoExit))
       \<and> (ssi_signo s = SIGQUIT \<longrightarrow>
            events_loop (e # es) w
              = ([SysRead (signal_fd w), Printf ''Caught SIGQUIT... exiting''], Inl GotoExit))
       \<and> (ssi_signo s \<notin> {SIGINT, SIGTERM, SIGQUIT} \<longrightarrow>
            events_loop (e # es) w
              = ([SysRead (signal_fd w), Printf ''Caught unexpected signal %d... ignoring'']
                   @ fst (events_loop es (w\<lparr>sigreads := ss\<rparr>)),
                 snd (events_loop es (w\<lparr>sigreads := ss\<rparr>))))
       \<and> (snd (pump H (polls w0) w0) = Inr w1 \<and> events_loop evs w1 = (t2, Inl GotoExit) \<longrightarrow>
            main_loop H (WaitReady evs # wts) w0
              = (fst (pump H (polls w0) w0)
                 @ [Printf ''Processed all tasks - polling for events'', EpollWait,
                    Printf ''Poll reported %d events'']
                 @ t2 @ [OptionsFree, ExecutorFree],
                 Exit 1))"
  using assms
  by (auto simp: read_signal_def SIGINT_def SIGTERM_def SIGQUIT_def split_def
           split: sum.splits)

theorem signal_shutdown_witness:
  "main_loop example_hyper_h [WaitReady [\<lparr>events = 1, data_ptr = KeySignal\<rparr>]]
     (example_world\<lparr>polls := [idle_poll], sigreads := [\<lparr>sig_read_ret = 128, ssi_signo = 15\<rparr>]\<rparr>)
     = ([ExecutorPoll, Polled None, Printf ''Processed all tasks - polling for events'',
         EpollWait, Printf ''Poll reported %d events'', SysRead 4,
         Printf ''Caught SIGTERM... exiting'', OptionsFree, ExecutorFree],
        Exit 1)
   \<and> fst (events_loop [\<lparr>events = 1, data_ptr = KeySignal\<rparr>]
            (example_world\<lparr>sigreads := [\<lparr>sig_read_ret = 128, ssi_signo = 10\<rparr>]\<rparr>))
       = [SysRead 4, Printf ''Caught unexpected signal %d... ignoring'']"
proof -
  let ?w = "example_world\<lparr>polls := [idle_poll],
                          sigreads := [\<lparr>sig_read_ret = 128, ssi_signo = 15\<rparr>]\<rparr>"
  let ?w1 = "example_world\<lparr>polls := [],
                           sigreads := [\<lparr>sig_read_ret = 128, ssi_signo = 15\<rparr>]\<rparr>"
  let ?e = "\<lparr>events = 1, data_ptr = KeySignal\<rparr>"
  have p: "pump example_hyper_h (polls ?w) ?w = ([ExecutorPoll, Polled None], Inr ?w1)"
    by (simp add: example_world_def idle_poll_def)
  have a: "sigreads ?w1 = [\<lparr>sig_read_ret = 128, ssi_signo = 15\<rparr>]"
    by (simp add: example_world_def)
  have b: "sig_read_ret \<lparr>sig_read_ret = 128, ssi_signo = 15\<rparr> = sizeof_signalfd_siginfo"
    by (simp add: sizeof_signalfd_siginfo_def)
  have c: "data_ptr ?e = KeySignal" by simp
  have ev: "events_loop [?e] ?w1 = ([SysRead 4, Printf ''Caught SIGTERM... exiting''], Inl GotoExit)"
    using signal_shutdown [OF a b c, of "[]"]
    by (simp add: SIGTERM_def example_world_def)
  have a': "sigreads (example_world\<lparr>sigreads := [\<lparr>sig_read_ret = 128, ssi_signo = 10\<rparr>]\<rparr>)
              = [\<lparr>sig_read_ret = 128, ssi_signo = 10\<rparr>]"
    by simp
  have b': "sig_read_ret \<lparr>sig_read_ret = 128, ssi_signo = 10\<rparr> = sizeof_signalfd_siginfo"
    by (simp add: sizeof_signalfd_siginfo_def)
  from signal_shutdown [OF a b c, of "[]" example_hyper_h ?w ?w1 "[?e]"
         "[SysRead 4, Printf ''Caught SIGTERM... exiting'']" "[]"]
       signal_shutdown [OF a' b' c, of "[]"]
       p ev
  show ?thesis
    by (simp add: SIGINT_def SIGTERM_def SIGQUIT_def example_world_def)
qed

section \<open>A failed registration of an accepted descriptor\<close>

text \<open>
  C10. When the registration of an accepted descriptor with the notifier fails,
  \<open>create_conn_data\<close> frees the record (its last call) and returns \<open>NULL\<close>. The accept
  path does not test the result: it sets \<open>NULL\<close> as the user-data of the new I/O binding.
  When the drain then ends, the binding's user-data is \<open>NULL\<close>, and an invocation of the
  read or the write callback of that binding by the engine dereferences \<open>NULL\<close>, as
  \<open>read_cb\<close> and \<open>write_cb\<close> do on a \<open>NULL\<close> user-data in any store.
\<close>

theorem null_record_reaches_callbacks:
  assumes "0 \<le> new_fd a" and "conn_nonblock_ret a = 0" and "conn_cloexec_ret a = 0"
    and "epoll_add_ret a < 0" and "new_fd b < 0"
  shows "(\<exists>h'. snd (create_conn_data (conns w) (malloc_ret a) (epoll_add_ret a) (new_fd a))
                 = Inr (None, h')
              \<and> (\<forall>p. malloc_ret a = Some p \<longrightarrow> h' p = None))
       \<and> last (fst (create_conn_data (conns w) (malloc_ret a) (epoll_add_ret a) (new_fd a)))
           = Free (malloc_ret a)
       \<and> IoSetUserdata (io_new a) None \<in> set (fst (accept_loop (a # b # rest) w))
       \<and> (\<exists>w'. snd (accept_loop (a # b # rest) w) = Inr w'
              \<and> io_userdata w' (io_new a) = Some None
              \<and> engine_calls H (CallRead (io_new a) ctx sys # cs) w' = ([], Inl InvalidDeref)
              \<and> engine_calls H (CallWrite (io_new a) ctx sys # cs) w' = ([], Inl InvalidDeref))
       \<and> read_cb H h None ctx sys = ([], Inl InvalidDeref)
       \<and> write_cb H h None ctx sys = ([], Inl InvalidDeref)"
proof -
  let ?h' = "case malloc_ret a of None \<Rightarrow> conns w | Some p \<Rightarrow> (conns w)(p := None)"
  let ?w1 = "w\<lparr>conns := ?h', io_userdata := (io_userdata w)(io_new a \<mapsto> None),
                task_userdata := (task_userdata w)(serverconn a \<mapsto> None)\<rparr>"
  have cr: "create_conn_data (conns w) (malloc_ret a) (epoll_add_ret a) (new_fd a)
              = ([Malloc (malloc_ret a), EpollCtlAdd (new_fd a) (KeyConn (malloc_ret a)),
                  Perror ''epoll_ctl (transport)'', Free (malloc_ret a)],
                 Inr (None, ?h'))"
    using assms(4) by (simp add: create_conn_data_def)
  have rd: "read_cb H h None ctx sys = ([], Inl InvalidDeref)" for h
    by (simp add: read_cb_def deref_def)
  have wr: "write_cb H h None ctx sys = ([], Inl InvalidDeref)" for h
    by (simp add: write_cb_def deref_def)
  have nx: "accept_loop (b # rest) ?w1
              = ([Accept (listen_fd w)] @ (if accept_errno b \<noteq> EAGAIN then [Perror ''accept''] else []),
                 Inr (?w1\<lparr>accepts := rest\<rparr>))"
    using assms(5) by simp
  have tr: "fst (accept_loop (a # b # rest) w)
              = [Accept (listen_fd w), Getnameinfo]
                @ (if getnameinfo_ret a < 0
                   then [Perror ''getnameinfo'', Printf ''New incoming connection from (unknown)'']
                   else [Printf ''New incoming connection from (%s:%s)''])
                @ [Fcntl (new_fd a) ''O_NONBLOCK'', Fcntl (new_fd a) ''FD_CLOEXEC'']
                @ fst (create_conn_data (conns w) (malloc_ret a) (epoll_add_ret a) (new_fd a))
                @ create_io (io_new a) None
                @ [ServiceNew, ServeConnection (io_new a) (serverconn a),
                   TaskSetUserdata (serverconn a) None, ExecutorPush (serverconn a)]
                @ fst (accept_loop (b # rest) ?w1)"
    using assms(1-3,5) cr by (simp add: fst_then_do)
  have st: "snd (accept_loop (a # b # rest) w) = snd (accept_loop (b # rest) ?w1)"
    using assms(1-3,5) cr by (simp add: snd_then_do)
  have 1: "\<exists>h'. snd (create_conn_data (conns w) (malloc_ret a) (epoll_add_ret a) (new_fd a))
                 = Inr (None, h')
              \<and> (\<forall>p. malloc_ret a = Some p \<longrightarrow> h' p = None)"
    using cr by auto
  have 2: "last (fst (create_conn_data (conns w) (malloc_ret a) (epoll_add_ret a) (new_fd a)))
           = Free (malloc_ret a)"
    using cr by simp
  have 3: "IoSetUserdata (io_new a) None \<in> set (fst (accept_loop (a # b # rest) w))"
    unfolding tr by (simp add: create_io_def)
  have 4: "\<exists>w'. snd (accept_loop (a # b # rest) w) = Inr w'
              \<and> io_userdata w' (io_new a) = Some None
              \<and> engine_calls H (CallRead (io_new a) ctx sys # cs) w' = ([], Inl InvalidDeref)
              \<and> engine_calls H (CallWrite (io_new a) ctx sys # cs) w' = ([], Inl InvalidDeref)"
    unfolding st nx
    by (intro exI [of _ "?w1\<lparr>accepts := rest\<rparr>"]) (simp add: rd wr)
  from 1 2 3 4 rd wr show ?thesis by blast
qed

theorem null_record_reaches_callbacks_witness:
  "main example_hyper_h
     (example_run\<lparr>accept_replies := [example_accept\<lparr>epoll_add_ret := - 1\<rparr>, accept_again]\<rparr>)
     = ([Printf ''listening on port %s on %s...'', Getaddrinfo, Socket, Setsockopt 3, Bind 3,
         Freeaddrinfo, Fcntl 3 ''O_NONBLOCK'', Fcntl 3 ''FD_CLOEXEC'', Listen 3, Signalfd,
         Sigprocmask, EpollCreate, EpollCtlAdd 3 KeyListen, EpollCtlAdd 4 KeySignal,
         Printf ''http handshake (hyper v%s) ...'', ExecutorNew, OptionsNew, ExecutorPoll,
         Polled None, Printf ''Processed all tasks - polling for events'', EpollWait,
         Printf ''Poll reported %d events'', Accept 3, Getnameinfo,
         Printf ''New incoming connection from (%s:%s)'', Fcntl 6 ''O_NONBLOCK'',
         Fcntl 6 ''FD_CLOEXEC'', Malloc (Some 100), EpollCtlAdd 6 (KeyConn (Some 100)),
         Perror ''epoll_ctl (transport)'', Free (Some 100), IoNew 200, IoSetUserdata 200 None,
         IoSetRead 200, IoSetWrite 200, ServiceNew, ServeConnection 200 300,
         TaskSetUserdata 300 None, ExecutorPush 300, Accept 3, ExecutorPoll],
        InvalidDeref)
   \<and> IoSetUserdata 200 None
       \<in> set (fst (accept_loop [example_accept\<lparr>epoll_add_ret := - 1\<rparr>, accept_again] example_world))"
proof -
  have 1: "0 \<le> new_fd (example_accept\<lparr>epoll_add_ret := - 1\<rparr>)"
    and 2: "conn_nonblock_ret (example_accept\<lparr>epoll_add_ret := - 1\<rparr>) = 0"
    and 3: "conn_cloexec_ret (example_accept\<lparr>epoll_add_ret := - 1\<rparr>) = 0"
    and 4: "epoll_add_ret (example_accept\<lparr>epoll_add_ret := - 1\<rparr>) < 0"
    and 5: "new_fd accept_again < 0"
    by (simp_all add: example_accept_def accept_again_def)
  have m: "main example_hyper_h
     (example_run\<lparr>accept_replies := [example_accept\<lparr>epoll_add_ret := - 1\<rparr>, accept_again]\<rparr>)
     = ([Printf ''listening on port %s on %s...'', Getaddrinfo, Socket, Setsockopt 3, Bind 3,
         Freeaddrinfo, Fcntl 3 ''O_NONBLOCK'', Fcntl 3 ''FD_CLOEXEC'', Listen 3, Signalfd,
         Sigprocmask, EpollCreate, EpollCtlAdd 3 KeyListen, EpollCtlAdd 4 KeySignal,
         Printf ''http handshake (hyper v%s) ...'', ExecutorNew, OptionsNew, ExecutorPoll,
         Polled None, Printf ''Processed all tasks - polling for events'', EpollWait,
         Printf ''Poll reported %d events'', Accept 3, Getnameinfo,
         Printf ''New incoming connection from (%s:%s)'', Fcntl 6 ''O_NONBLOCK'',
         Fcntl 6 ''FD_CLOEXEC'', Malloc (Some 100), EpollCtlAdd 6 (KeyConn (Some 100)),
         Perror ''epoll_ctl (transport)'', Free (Some 100), IoNew 200, IoSetUserdata 200 None,
         IoSetRead 200, IoSetWrite 200, ServiceNew, ServeConnection 200 300,
         TaskSetUserdata 300 None, ExecutorPush 300, Accept 3, ExecutorPoll],
        InvalidDeref)"
    by code_simp
  have io: "io_new (example_accept\<lparr>epoll_add_ret := - 1\<rparr>) = 200"
    by (simp add: example_accept_def)
  from null_record_reaches_callbacks [OF 1 2 3 4 5, where rest = "[]" and w = example_world]
  have "IoSetUserdata (io_new (example_accept\<lparr>epoll_add_ret := - 1\<rparr>)) None
       \<in> set (fst (accept_loop [example_accept\<lparr>epoll_add_ret := - 1\<rparr>, accept_again] example_world))"
    by blast
  with m io show ?thesis by simp
qed

end
